theory Spec2Isabelle
  imports Main
begin

section \<open>JavaScript values and the platform\<close>

text \<open>
  The two nodes handle untyped JSON data (\<^verbatim>\<open>any\<close>, \<^verbatim>\<open>IDataObject\<close>). A value is a
  \<open>json\<close>; \<^verbatim>\<open>undefined\<close> is \<open>None\<close> of \<open>json option\<close>. An object is the list of
  its own enumerable properties in the order \<^verbatim>\<open>Object.keys\<close> enumerates them, read with
  \<open>map_of\<close>. Numbers are the integer-valued ones (timestamps, counts). A string is the
  list of its code units. Inherited properties (\<^verbatim>\<open>toString\<close>, \<^verbatim>\<open>constructor\<close>) are
  not part of the model.
\<close>

datatype json =
    JNull
  | JBool bool
  | JNum int
  | JStr string
  | JArr "json list"
  | JObj "(string \<times> json) list"

text \<open>The truthiness test of \<^verbatim>\<open>if (v)\<close>, \<^verbatim>\<open>v && w\<close> and \<^verbatim>\<open>v || w\<close>.\<close>

fun truthy :: "json \<Rightarrow> bool" where
  "truthy JNull = False"
| "truthy (JBool b) = b"
| "truthy (JNum n) = (n \<noteq> 0)"
| "truthy (JStr s) = (s \<noteq> [])"
| "truthy (JArr xs) = True"
| "truthy (JObj kvs) = True"

fun truthy_opt :: "json option \<Rightarrow> bool" where
  "truthy_opt None = False"
| "truthy_opt (Some v) = truthy v"

text \<open>
  The functions of the JavaScript runtime that the nodes call but do not define are
  parameters of the model: every theorem below holds for each runtime \<open>P\<close>.
  \<open>JSON_parse\<close> is \<^verbatim>\<open>JSON.parse\<close> (\<open>None\<close> when it throws a SyntaxError),
  \<open>JSON_stringify n\<close> is \<^verbatim>\<open>JSON.stringify(v, null, n)\<close> (\<open>n = 0\<close> for the call with
  one argument),
  \<open>toBase64\<close> is \<^verbatim>\<open>Buffer.from(s).toString('base64')\<close>,
  \<open>fromBase64\<close> is \<^verbatim>\<open>Buffer.from(s, 'base64').toString()\<close>,
  \<open>ToNumber\<close> and \<open>ToString\<close> are the coercions of a value that is not already a
  number or a string, and \<open>toLowerCase\<close>, \<open>toUpperCase\<close> are the Unicode case mappings
  of \<^verbatim>\<open>String.prototype\<close>.
\<close>

record platform =
  JSON_parse :: "string \<Rightarrow> json option"
  JSON_stringify :: "nat \<Rightarrow> json \<Rightarrow> string"
  toBase64 :: "string \<Rightarrow> string"
  fromBase64 :: "string \<Rightarrow> string"
  ToNumber :: "json \<Rightarrow> int option"
  ToString :: "json option \<Rightarrow> string"
  toLowerCase :: "string \<Rightarrow> string"
  toUpperCase :: "string \<Rightarrow> string"

fun to_number :: "platform \<Rightarrow> json \<Rightarrow> int option" where
  "to_number P (JNum n) = Some n"
| "to_number P v = ToNumber P v"

fun to_string :: "platform \<Rightarrow> json option \<Rightarrow> string" where
  "to_string P (Some (JStr s)) = s"
| "to_string P v = ToString P v"

text \<open>
  Exceptions: the SyntaxError of \<^verbatim>\<open>JSON.parse\<close>, the TypeError of a property access on
  \<^verbatim>\<open>null\<close> or \<^verbatim>\<open>undefined\<close> and of a call of something that is no function, a
  rejected request or credential lookup of the host, the NodeOperationError with its
  message, and the NodeOperationError \<^verbatim>\<open>Failed to parse body JSON: ...\<close>, whose text
  ends with the parser's message. \<open>Unmodelled\<close> marks a run that leaves the fragment of
  JavaScript covered here (a named property stored on an array).
\<close>

datatype error =
    SyntaxError
  | TypeError
  | HostError string
  | OperationError string
  | BodyParseError
  | Unmodelled

section \<open>Outbound HTTP requests\<close>

text \<open>
  \<^verbatim>\<open>IHttpRequestOptions\<close> as the nodes fill it: method, URL, query string, headers, body.
  The headers are a plain object that the node builds: a dictionary from names to values;
  the order of its keys is never observed. The query object can be any parsed JSON value.
\<close>

record http_request =
  req_method :: string
  req_url :: string
  req_qs :: json
  req_headers :: "string \<rightharpoonup> json"
  req_body :: "json option"

text \<open>
  The host keeps the node's static data (\<^verbatim>\<open>getWorkflowStaticData('node')\<close>); the model
  also logs every request handed to \<^verbatim>\<open>helpers.httpRequest\<close>, in order.
\<close>

record world =
  staticData :: "string \<rightharpoonup> json"
  issued :: "http_request list"

section \<open>Descriptor cache: \<^verbatim>\<open>getPluginListCached\<close>\<close>

definition CACHE_DURATION :: int where
  "CACHE_DURATION = 5 * 60 * 1000"

definition cacheKey :: "string \<Rightarrow> string" where
  "cacheKey token = ''plugins_list_'' @ take 20 token"

definition cacheTimeKey :: "string \<Rightarrow> string" where
  "cacheTimeKey token = cacheKey token @ ''_timestamp''"

definition plugin_list_request :: "string \<Rightarrow> http_request" where
  "plugin_list_request token =
     \<lparr> req_method = ''POST'',
       req_url = ''https://superiorapis-creator.cteam.com.tw/manager/module/plugins/list_v3'',
       req_qs = JObj [],
       req_headers = [''token'' \<mapsto> JStr token],
       req_body = None \<rparr>"

text \<open>
  The validity test of the source:
  \<^verbatim>\<open>workflowStaticData[cacheKey] && cachedTime && now - cachedTime < CACHE_DURATION\<close>.
  A comparison with \<^verbatim>\<open>NaN\<close> is false.
\<close>

definition cache_valid :: "platform \<Rightarrow> int \<Rightarrow> string \<Rightarrow> world \<Rightarrow> bool" where
  "cache_valid P now token w =
     (truthy_opt (staticData w (cacheKey token)) \<and>
      truthy_opt (staticData w (cacheTimeKey token)) \<and>
      (case staticData w (cacheTimeKey token) of
         None \<Rightarrow> False
       | Some cachedTime \<Rightarrow>
           (case to_number P cachedTime of
              None \<Rightarrow> False
            | Some t \<Rightarrow> now - t < CACHE_DURATION)))"

text \<open>
  \<open>net\<close> is the network at the moment of the call: the answer \<^verbatim>\<open>httpRequest\<close> would
  give (\<open>Inl\<close> when it rejects); \<open>now\<close> is \<^verbatim>\<open>Date.now()\<close>. The result is the returned
  value or the exception, and the world after the call.
\<close>

definition fetchPluginList ::
  "(http_request \<Rightarrow> error + json) \<Rightarrow> int \<Rightarrow> string \<Rightarrow> world
     \<Rightarrow> (error + json) \<times> world" where
  "fetchPluginList net now token w =
     (let w1 = w\<lparr>issued := issued w @ [plugin_list_request token]\<rparr>
      in case net (plugin_list_request token) of
           Inl e \<Rightarrow> (Inl e, w1)
         | Inr response \<Rightarrow>
             (Inr response,
              w1\<lparr>staticData :=
                   (staticData w1)(cacheKey token \<mapsto> response,
                                   cacheTimeKey token \<mapsto> JNum now)\<rparr>))"

definition getPluginListCached ::
  "platform \<Rightarrow> (http_request \<Rightarrow> error + json) \<Rightarrow> int \<Rightarrow> string \<Rightarrow> world
     \<Rightarrow> (error + json) \<times> world" where
  "getPluginListCached P net now token w =
     (case staticData w (cacheKey token) of
        None \<Rightarrow> fetchPluginList net now token w
      | Some cached \<Rightarrow>
          if cache_valid P now token w then (Inr cached, w)
          else fetchPluginList net now token w)"

section \<open>Strings and property access\<close>

text \<open>
  \<^verbatim>\<open>String.prototype.trim\<close> removes white space and line terminators at both ends; among
  the code units below 256 these are 9 to 13, 32 and 160.
\<close>

definition js_space :: "char \<Rightarrow> bool" where
  "js_space c = (of_char c \<in> {9, 10, 11, 12, 13, 32, 160 :: nat})"

definition trim :: "string \<Rightarrow> string" where
  "trim s = rev (dropWhile js_space (rev (dropWhile js_space s)))"

definition startsWith :: "string \<Rightarrow> string \<Rightarrow> bool" where
  "startsWith s p = (take (length p) s = p)"

text \<open>\<^verbatim>\<open>s.includes(sub)\<close>: \<open>sub\<close> occurs in \<open>s\<close>.\<close>

fun includes_str :: "string \<Rightarrow> string \<Rightarrow> bool" where
  "includes_str [] sub = (sub = [])"
| "includes_str (c # cs) sub = (startsWith (c # cs) sub \<or> includes_str cs sub)"

text \<open>\<^verbatim>\<open>s.replace(pat, rep)\<close> with a string pattern: the first occurrence only.\<close>

fun replace :: "string \<Rightarrow> string \<Rightarrow> string \<Rightarrow> string" where
  "replace [] pat rep = (if pat = [] then rep else [])"
| "replace (c # cs) pat rep =
     (if startsWith (c # cs) pat then rep @ drop (length pat) (c # cs)
      else c # replace cs pat rep)"

text \<open>The decimal text of an array index, as a property key.\<close>

function index_key :: "nat \<Rightarrow> string" where
  "index_key n =
     (if n < 10 then [char_of (48 + n)]
      else index_key (n div 10) @ [char_of (48 + n mod 10)])"
  by pat_completeness auto
termination
  by (relation "measure (\<lambda>n. n)") auto

text \<open>
  The own enumerable properties of a value, as \<^verbatim>\<open>Object.keys\<close> and the spread
  \<^verbatim>\<open>{...v}\<close> see them: the entries of an object, the indexed elements of an array, the
  indexed characters of a string, nothing for a number or a boolean.
\<close>

fun own_props :: "json \<Rightarrow> (string \<times> json) list" where
  "own_props (JObj kvs) = kvs"
| "own_props (JArr xs) = zip (map index_key [0..<length xs]) xs"
| "own_props (JStr s) = zip (map index_key [0..<length s]) (map (\<lambda>c. JStr [c]) s)"
| "own_props v = []"

text \<open>Reading \<^verbatim>\<open>v[k]\<close> on a value that is neither \<^verbatim>\<open>null\<close> nor \<^verbatim>\<open>undefined\<close>.\<close>

fun own_get :: "json \<Rightarrow> string \<Rightarrow> json option" where
  "own_get (JArr xs) k =
     (if k = ''length'' then Some (JNum (int (length xs))) else map_of (own_props (JArr xs)) k)"
| "own_get (JStr s) k =
     (if k = ''length'' then Some (JNum (int (length s))) else map_of (own_props (JStr s)) k)"
| "own_get v k = map_of (own_props v) k"

text \<open>\<^verbatim>\<open>v.k\<close>: a TypeError on \<^verbatim>\<open>null\<close> and \<^verbatim>\<open>undefined\<close>.\<close>

fun getProp :: "json option \<Rightarrow> string \<Rightarrow> error + json option" where
  "getProp None k = Inl TypeError"
| "getProp (Some JNull) k = Inl TypeError"
| "getProp (Some v) k = Inr (own_get v k)"

text \<open>\<^verbatim>\<open>v?.k\<close>: \<^verbatim>\<open>undefined\<close> on \<^verbatim>\<open>null\<close> and \<^verbatim>\<open>undefined\<close>.\<close>

fun optProp :: "json option \<Rightarrow> string \<Rightarrow> json option" where
  "optProp None k = None"
| "optProp (Some JNull) k = None"
| "optProp (Some v) k = own_get v k"

fun object_keys :: "json option \<Rightarrow> error + string list" where
  "object_keys None = Inl TypeError"
| "object_keys (Some JNull) = Inl TypeError"
| "object_keys (Some v) = Inr (map fst (own_props v))"

text \<open>\<^verbatim>\<open>xs[0]\<close>: \<^verbatim>\<open>undefined\<close> on an empty array.\<close>

fun first :: "'a list \<Rightarrow> 'a option" where
  "first [] = None"
| "first (x # xs) = Some x"

text \<open>A possibly undefined string as a property key or inside a template literal.\<close>

fun key_string :: "string option \<Rightarrow> string" where
  "key_string None = ''undefined''"
| "key_string (Some k) = k"

text \<open>
  \<^verbatim>\<open>obj[k] = v\<close> on a dictionary built by the node. With the key \<^verbatim>\<open>__proto__\<close> the
  assignment changes the prototype and creates no own property, unless the object has an
  own property of that name already.
\<close>

definition js_set :: "string \<Rightarrow> json \<Rightarrow> (string \<rightharpoonup> json) \<Rightarrow> (string \<rightharpoonup> json)" where
  "js_set k v m = (if k = ''__proto__'' \<and> m k = None then m else m(k \<mapsto> v))"

text \<open>Sequencing of steps that may throw.\<close>

definition andThen :: "error + 'a \<Rightarrow> ('a \<Rightarrow> error + 'b) \<Rightarrow> error + 'b" where
  "andThen m f = (case m of Inl e \<Rightarrow> Inl e | Inr x \<Rightarrow> f x)"


section \<open>The SuperiorAPIs node: parameters of one input item\<close>

text \<open>
  What \<^verbatim>\<open>getNodeParameter(name, i, fallback)\<close> and \<^verbatim>\<open>getCredentials\<close> resolve to for
  item \<open>i\<close>, typed as the node's property list declares them. \<open>credentials\<close> is
  the awaited \<^verbatim>\<open>getCredentials('superiorAPIsApi')\<close>: rejected with a message, or the
  text of the credential's \<^verbatim>\<open>headers\<close> field (empty when unset). \<open>headers\<close> and
  \<open>queryParameters\<close> are the rows (name, value) of \<^verbatim>\<open>params.parameter\<close> when that is
  an array. \<open>parametersFields\<close> and \<open>bodyFields\<close> are the \<^verbatim>\<open>value\<close> of the two
  resource mappers (\<open>None\<close> when the mapper is \<^verbatim>\<open>null\<close> or has no value).
\<close>

record api_item =
  token :: string
  apiSelection :: string
  "method" :: string
  baseUri :: string
  credentials :: "string + string"
  sendHeaders :: bool
  specifyHeaders :: string
  headers :: "(string \<times> json) list option"
  headersJson :: string
  sendQuery :: bool
  specifyQuery :: string
  queryParameters :: "(string \<times> json) list option"
  queryParametersJson :: string
  scenario :: string
  parametersFields :: "json option"
  bodyJson :: string
  bodyFields :: "json option"

section \<open>The SuperiorAPIs node: \<^verbatim>\<open>execute\<close>\<close>

text \<open>\<^verbatim>\<open>JSON.parse(Buffer.from(apiSelection, 'base64').toString())\<close>\<close>

definition decodeSelection :: "platform \<Rightarrow> string \<Rightarrow> error + json" where
  "decodeSelection P sel =
     (case JSON_parse P (fromBase64 P sel) of
        None \<Rightarrow> Inl SyntaxError
      | Some pluginData \<Rightarrow> Inr pluginData)"

text \<open>
  \<^verbatim>\<open>delete h.token\<close> followed by the spread \<^verbatim>\<open>{...headers, ...h}\<close> of a parsed JSON
  value \<open>h\<close>: the own properties of \<open>h\<close> without the key \<^verbatim>\<open>token\<close>. The
  \<^verbatim>\<open>delete\<close> throws on \<^verbatim>\<open>null\<close>.
\<close>

fun withoutToken :: "json \<Rightarrow> error + (string \<rightharpoonup> json)" where
  "withoutToken JNull = Inl TypeError"
| "withoutToken h = Inr ((map_of (own_props h))(''token'' := None))"

text \<open>
  \<^verbatim>\<open>params.parameter.reduce((acc, p) => { acc[p.name] = p.value; return acc; }, {})\<close>
\<close>

definition rowsObject :: "(string \<times> json) list \<Rightarrow> (string \<rightharpoonup> json)" where
  "rowsObject rows = fold (\<lambda>(name, v) acc. js_set name v acc) rows Map.empty"

definition credentialHeaders ::
  "platform \<Rightarrow> api_item \<Rightarrow> (string \<rightharpoonup> json) \<Rightarrow> error + (string \<rightharpoonup> json)" where
  "credentialHeaders P it hdrs =
     (case credentials it of
        Inl msg \<Rightarrow> Inl (HostError msg)
      | Inr credText \<Rightarrow>
          if credText \<noteq> [] then
            (case JSON_parse P credText of
               None \<Rightarrow> Inl SyntaxError
             | Some credHeaders \<Rightarrow>
                 andThen (withoutToken credHeaders) (\<lambda>h. Inr (hdrs ++ h)))
          else Inr hdrs)"

definition userHeaders ::
  "platform \<Rightarrow> api_item \<Rightarrow> (string \<rightharpoonup> json) \<Rightarrow> error + (string \<rightharpoonup> json)" where
  "userHeaders P it hdrs =
     (if sendHeaders it then
        (if specifyHeaders it = ''keypair'' then
           (case headers it of
              Some rows \<Rightarrow> Inr (hdrs ++ (rowsObject rows)(''token'' := None))
            | None \<Rightarrow> Inr hdrs)
         else
           (case JSON_parse P (headersJson it) of
              None \<Rightarrow> Inl SyntaxError
            | Some userHdrs \<Rightarrow>
                andThen (withoutToken userHdrs) (\<lambda>h. Inr (hdrs ++ h))))
      else Inr hdrs)"

text \<open>
  The query object starts as \<^verbatim>\<open>{}\<close> and may become whatever the query JSON text
  parses to. \<open>assign_own\<close> is \<^verbatim>\<open>obj[k] = v\<close> on the property list of an object;
  \<open>assign_prop\<close> is the same assignment on any value: in strict mode it throws on a
  primitive and on \<^verbatim>\<open>null\<close>. A new key goes to the end of the list, which is where
  JavaScript enumerates a new key that is not an array index; a new key that is an
  array index is enumerated by JavaScript before the other keys, in ascending order,
  and the list does not show that order.
\<close>

fun update_entry :: "string \<Rightarrow> json \<Rightarrow> (string \<times> json) list \<Rightarrow> (string \<times> json) list" where
  "update_entry k v [] = [(k, v)]"
| "update_entry k v ((k', v') # kvs) =
     (if k' = k then (k, v) # kvs else (k', v') # update_entry k v kvs)"

definition assign_own :: "string \<Rightarrow> json \<Rightarrow> (string \<times> json) list \<Rightarrow> (string \<times> json) list" where
  "assign_own k v kvs =
     (if k = ''__proto__'' \<and> map_of kvs k = None then kvs else update_entry k v kvs)"

fun assign_prop :: "json \<Rightarrow> string \<Rightarrow> json \<Rightarrow> error + json" where
  "assign_prop (JObj kvs) k v = Inr (JObj (assign_own k v kvs))"
| "assign_prop (JArr xs) k v = Inl Unmodelled"
| "assign_prop q k v = Inl TypeError"

definition userQuery :: "platform \<Rightarrow> api_item \<Rightarrow> error + json" where
  "userQuery P it =
     (if sendQuery it then
        (if specifyQuery it = ''keypair'' then
           (case queryParameters it of
              Some rows \<Rightarrow> Inr (JObj (fold (\<lambda>(name, v) acc. assign_own name v acc) rows []))
            | None \<Rightarrow> Inr (JObj []))
         else
           (case JSON_parse P (queryParametersJson it) of
              None \<Rightarrow> Inl SyntaxError
            | Some q \<Rightarrow> Inr q))
      else Inr (JObj []))"

text \<open>
  One step of \<^verbatim>\<open>Object.keys(params).forEach\<close> over the mapped parameter fields, on
  the pair of the query object and the headers.
\<close>

definition mappedField ::
  "string \<times> json \<Rightarrow> json \<times> (string \<rightharpoonup> json) \<Rightarrow> error + json \<times> (string \<rightharpoonup> json)" where
  "mappedField kv st =
     (case (kv, st) of ((key, v), (queryParams, hdrs)) \<Rightarrow>
        if startsWith key ''query_'' then
          andThen (assign_prop queryParams (replace key ''query_'' []) v)
            (\<lambda>q. Inr (q, hdrs))
        else if startsWith key ''header_'' then
          (let paramName = replace key ''header_'' []
           in if paramName \<noteq> ''token'' then Inr (queryParams, js_set paramName v hdrs)
              else Inr (queryParams, hdrs))
        else Inr (queryParams, hdrs))"

fun mappedFields ::
  "(string \<times> json) list \<Rightarrow> json \<times> (string \<rightharpoonup> json) \<Rightarrow> error + json \<times> (string \<rightharpoonup> json)" where
  "mappedFields [] st = Inr st"
| "mappedFields (kv # kvs) st = andThen (mappedField kv st) (mappedFields kvs)"

definition mappedParameters ::
  "api_item \<Rightarrow> json \<times> (string \<rightharpoonup> json) \<Rightarrow> error + json \<times> (string \<rightharpoonup> json)" where
  "mappedParameters it st =
     (case parametersFields it of
        None \<Rightarrow> Inr st
      | Some params \<Rightarrow>
          if truthy params then mappedFields (own_props params) st else Inr st)"

text \<open>
  The body: read from \<^verbatim>\<open>bodyJson\<close> unless the scenario is empty, \<^verbatim>\<open>no_scenario\<close> or
  \<^verbatim>\<open>error\<close>; \<open>None\<close> is a body left \<^verbatim>\<open>undefined\<close>.
\<close>

definition requestBody :: "platform \<Rightarrow> api_item \<Rightarrow> error + json option" where
  "requestBody P it =
     (if scenario it \<noteq> [] \<and> scenario it \<noteq> ''no_scenario'' \<and> scenario it \<noteq> ''error'' then
        (if bodyJson it \<noteq> [] \<and> trim (bodyJson it) \<noteq> [] \<and> trim (bodyJson it) \<noteq> ''{}'' then
           (case JSON_parse P (bodyJson it) of
              None \<Rightarrow> Inl BodyParseError
            | Some b \<Rightarrow> Inr (Some b))
         else Inr None)
      else Inr None)"

text \<open>The Content-Type the API declares, for POST, PUT and PATCH.\<close>

definition declaredContentType :: "string \<Rightarrow> string" where
  "declaredContentType apiContentType =
     (if includes_str apiContentType ''multipart/form-data'' then ''multipart/form-data''
      else if includes_str apiContentType ''application/json'' then ''application/json''
      else if includes_str apiContentType ''application/x-www-form-urlencoded''
        then ''application/x-www-form-urlencoded''
      else apiContentType)"

definition contentTypeHeader ::
  "platform \<Rightarrow> json option \<Rightarrow> string \<Rightarrow> (string \<rightharpoonup> json) \<Rightarrow> error + (string \<rightharpoonup> json)" where
  "contentTypeHeader P pathMethods m hdrs =
     (if m \<in> set [''POST'', ''PUT'', ''PATCH''] then
        andThen (getProp pathMethods (toLowerCase P m)) (\<lambda>methodData.
          let content = optProp (optProp methodData ''requestBody'') ''content''
          in if truthy_opt content then
               andThen (object_keys content) (\<lambda>contentTypes.
                 if \<not> truthy_opt (hdrs ''Content-Type'') then
                   (case first contentTypes of
                      None \<Rightarrow> Inl TypeError
                    | Some apiContentType \<Rightarrow>
                        Inr (hdrs(''Content-Type'' \<mapsto> JStr (declaredContentType apiContentType))))
                 else Inr hdrs)
             else Inr hdrs)
      else Inr hdrs)"

text \<open>
  The body of the \<^verbatim>\<open>try\<close> block up to the options handed to \<^verbatim>\<open>httpRequest\<close>.
\<close>

definition buildRequest :: "platform \<Rightarrow> api_item \<Rightarrow> error + http_request" where
  "buildRequest P it =
     (if token it = [] then Inl (OperationError ''Token is required'')
      else if apiSelection it = [] then Inl (OperationError ''Please select an API from the list'')
      else
        andThen (decodeSelection P (apiSelection it)) (\<lambda>pluginData.
        andThen (getProp (Some pluginData) ''interface'') (\<lambda>iface.
        andThen (getProp iface ''paths'') (\<lambda>paths.
        andThen (object_keys paths) (\<lambda>pathKeys.
        let firstPath = first pathKeys in
        andThen (getProp paths (key_string firstPath)) (\<lambda>pathMethods.
        andThen (if method it = [] then
                   andThen (object_keys pathMethods) (\<lambda>verbs.
                     case first verbs of
                       None \<Rightarrow> Inl TypeError
                     | Some verb \<Rightarrow> Inr (toUpperCase P verb))
                 else Inr (method it)) (\<lambda>m.
        let url = baseUri it @ key_string firstPath in
        andThen (credentialHeaders P it [''token'' \<mapsto> JStr (token it)]) (\<lambda>hdrs1.
        andThen (userHeaders P it hdrs1) (\<lambda>hdrs2.
        andThen (userQuery P it) (\<lambda>queryParams.
        andThen (mappedParameters it (queryParams, hdrs2)) (\<lambda>(queryParams', hdrs3).
        andThen (requestBody P it) (\<lambda>body.
        andThen (contentTypeHeader P pathMethods m hdrs3) (\<lambda>hdrs4.
          Inr \<lparr> req_method = m, req_url = url, req_qs = queryParams',
                req_headers = hdrs4, req_body = body \<rparr>)))))))))))))"

text \<open>
  The loop over the input items. \<open>net i\<close> answers the request of item \<open>i\<close>. A result
  is wrapped under \<^verbatim>\<open>data\<close> unless \<^verbatim>\<open>typeof response === 'object'\<close>. A failed item
  becomes an error record when \<^verbatim>\<open>continueOnFail()\<close> holds and aborts the batch
  otherwise.
\<close>

datatype out_item = ItemResult json nat | ItemError error nat

fun wrapResponse :: "json \<Rightarrow> json" where
  "wrapResponse JNull = JNull"
| "wrapResponse (JArr xs) = JArr xs"
| "wrapResponse (JObj kvs) = JObj kvs"
| "wrapResponse v = JObj [(''data'', v)]"

fun executeFrom ::
  "platform \<Rightarrow> (nat \<Rightarrow> http_request \<Rightarrow> error + json) \<Rightarrow> bool \<Rightarrow> nat \<Rightarrow> api_item list
     \<Rightarrow> out_item list \<Rightarrow> error + out_item list" where
  "executeFrom P net continueOnFail i [] returnData = Inr returnData"
| "executeFrom P net continueOnFail i (it # items) returnData =
     (case andThen (buildRequest P it) (net i) of
        Inr response \<Rightarrow>
          executeFrom P net continueOnFail (Suc i) items
            (returnData @ [ItemResult (wrapResponse response) i])
      | Inl e \<Rightarrow>
          if continueOnFail then
            executeFrom P net continueOnFail (Suc i) items (returnData @ [ItemError e i])
          else Inl e)"

definition execute ::
  "platform \<Rightarrow> (nat \<Rightarrow> http_request \<Rightarrow> error + json) \<Rightarrow> bool \<Rightarrow> api_item list
     \<Rightarrow> error + out_item list" where
  "execute P net continueOnFail items = executeFrom P net continueOnFail 0 items []"


section \<open>A reference runtime for the examples\<close>

text \<open>
  The examples below instantiate the runtime parameter with \<open>ascii_runtime\<close>. It
  computes what Node computes on ASCII JSON texts whose numbers are integers of
  magnitude below \<open>2 ^ 53\<close> written without fraction and exponent and whose object keys
  are not array indices, on canonical base64 text, and on the ASCII letters for the case
  mappings. Outside that range it differs from Node: a number with a fraction or an
  exponent is refused, a larger integer is kept exact where Node rounds it, and keys
  that are array indices stay in the order of the text where Node lists them first, in
  ascending order. There it is only some runtime, and no theorem depends on it.
\<close>

definition digit_char :: "nat \<Rightarrow> char" where
  "digit_char d = char_of (if d < 10 then 48 + d else 87 + d)"

definition show_int :: "int \<Rightarrow> string" where
  "show_int i = (if i < 0 then CHR ''-'' # index_key (nat (- i)) else index_key (nat i))"

definition escape_char :: "char \<Rightarrow> string" where
  "escape_char c =
     (if c = CHR 0x22 then [CHR 0x5C, CHR 0x22]
      else if c = CHR 0x5C then [CHR 0x5C, CHR 0x5C]
      else if c = CHR 0x08 then [CHR 0x5C, CHR ''b'']
      else if c = CHR 0x0C then [CHR 0x5C, CHR ''f'']
      else if c = CHR 0x0A then [CHR 0x5C, CHR ''n'']
      else if c = CHR 0x0D then [CHR 0x5C, CHR ''r'']
      else if c = CHR 0x09 then [CHR 0x5C, CHR ''t'']
      else if of_char c < (32::nat) then
        [CHR 0x5C, CHR ''u'', CHR ''0'', CHR ''0'',
         digit_char (of_char c div 16), digit_char (of_char c mod 16)]
      else [c])"

definition quote :: "string \<Rightarrow> string" where
  "quote s = CHR 0x22 # concat (map escape_char s) @ [CHR 0x22]"

fun join :: "string \<Rightarrow> string list \<Rightarrow> string" where
  "join sep [] = []"
| "join sep [x] = x"
| "join sep (x # y # ys) = x @ sep @ join sep (y # ys)"

fun stringify :: "nat \<Rightarrow> nat \<Rightarrow> json \<Rightarrow> string"
  and stringify_items :: "nat \<Rightarrow> nat \<Rightarrow> json list \<Rightarrow> string list"
  and stringify_members :: "nat \<Rightarrow> nat \<Rightarrow> (string \<times> json) list \<Rightarrow> string list" where
  "stringify gap ind JNull = ''null''"
| "stringify gap ind (JBool b) = (if b then ''true'' else ''false'')"
| "stringify gap ind (JNum n) = show_int n"
| "stringify gap ind (JStr s) = quote s"
| "stringify gap ind (JArr xs) =
     (if xs = [] then ''[]''
      else if gap = 0 then ''['' @ join '','' (stringify_items gap ind xs) @ '']''
      else ''['' @ [CHR 0x0A] @ replicate (ind + gap) CHR '' '' @
           join ('','' @ [CHR 0x0A] @ replicate (ind + gap) CHR '' '')
             (stringify_items gap (ind + gap) xs) @
           [CHR 0x0A] @ replicate ind CHR '' '' @ '']'')"
| "stringify gap ind (JObj kvs) =
     (if kvs = [] then ''{}''
      else if gap = 0 then ''{'' @ join '','' (stringify_members gap ind kvs) @ ''}''
      else ''{'' @ [CHR 0x0A] @ replicate (ind + gap) CHR '' '' @
           join ('','' @ [CHR 0x0A] @ replicate (ind + gap) CHR '' '')
             (stringify_members gap (ind + gap) kvs) @
           [CHR 0x0A] @ replicate ind CHR '' '' @ ''}'')"
| "stringify_items gap ind [] = []"
| "stringify_items gap ind (x # xs) = stringify gap ind x # stringify_items gap ind xs"
| "stringify_members gap ind [] = []"
| "stringify_members gap ind ((k, v) # kvs) =
     (quote k @ (if gap = 0 then '':'' else '': '') @ stringify gap ind v)
       # stringify_members gap ind kvs"


text \<open>\<^verbatim>\<open>JSON.parse\<close>, with fuel: one unit per nesting step, and the length of the text is enough.\<close>

definition json_ws :: "char \<Rightarrow> bool" where
  "json_ws c = (c = CHR '' '' \<or> c = CHR 0x09 \<or> c = CHR 0x0A \<or> c = CHR 0x0D)"

definition is_digit :: "char \<Rightarrow> bool" where
  "is_digit c = (48 \<le> (of_char c :: nat) \<and> (of_char c :: nat) \<le> 57)"

definition hex_value :: "char \<Rightarrow> nat option" where
  "hex_value c =
     (let n = (of_char c :: nat)
      in if 48 \<le> n \<and> n \<le> 57 then Some (n - 48)
         else if 65 \<le> n \<and> n \<le> 70 then Some (n - 55)
         else if 97 \<le> n \<and> n \<le> 102 then Some (n - 87)
         else None)"

fun digits_value :: "nat \<Rightarrow> string \<Rightarrow> nat" where
  "digits_value acc [] = acc"
| "digits_value acc (c # cs) = digits_value (10 * acc + (of_char c - 48)) cs"

text \<open>
  A number text: an optional minus sign, then \<^verbatim>\<open>0\<close> or digits without a leading zero.
  A fraction or an exponent is not read.
\<close>

definition parse_number :: "string \<Rightarrow> (json \<times> string) option" where
  "parse_number s =
     (let neg = (s \<noteq> [] \<and> hd s = CHR ''-'');
          t = (if neg then tl s else s);
          ds = takeWhile is_digit t;
          r = dropWhile is_digit t
      in if ds = [] \<or> (length ds > 1 \<and> hd ds = CHR ''0'') then None
         else if r \<noteq> [] \<and> (hd r = CHR ''.'' \<or> hd r = CHR ''e'' \<or> hd r = CHR ''E'') then None
         else Some (JNum (if neg then - int (digits_value 0 ds) else int (digits_value 0 ds)), r))"

text \<open>The characters of a string literal after its opening quote.\<close>

fun parse_chars :: "string \<Rightarrow> (string \<times> string) option" where
  "parse_chars [] = None"
| "parse_chars (c # cs) =
     (if c = CHR 0x22 then Some ([], cs)
      else if of_char c < (32::nat) then None
      else if c = CHR 0x5C then
        (case cs of
           [] \<Rightarrow> None
         | e # r \<Rightarrow>
             if e = CHR ''u'' then
               (case r of
                  h1 # h2 # h3 # h4 # r' \<Rightarrow>
                    (case (hex_value h1, hex_value h2, hex_value h3, hex_value h4) of
                       (Some a, Some b, Some c', Some d) \<Rightarrow>
                         if a = 0 \<and> b = 0 then
                           map_option (\<lambda>(str, rest). (char_of (16 * c' + d) # str, rest))
                             (parse_chars r')
                         else None
                     | _ \<Rightarrow> None)
                | _ \<Rightarrow> None)
             else
               (case (if e = CHR 0x22 then Some (CHR 0x22)
                      else if e = CHR 0x5C then Some (CHR 0x5C)
                      else if e = CHR ''/'' then Some (CHR ''/'')
                      else if e = CHR ''b'' then Some (CHR 0x08)
                      else if e = CHR ''f'' then Some (CHR 0x0C)
                      else if e = CHR ''n'' then Some (CHR 0x0A)
                      else if e = CHR ''r'' then Some (CHR 0x0D)
                      else if e = CHR ''t'' then Some (CHR 0x09)
                      else None) of
                  None \<Rightarrow> None
                | Some x \<Rightarrow> map_option (\<lambda>(str, rest). (x # str, rest)) (parse_chars r)))
      else map_option (\<lambda>(str, rest). (c # str, rest)) (parse_chars cs))"

fun parse_value :: "nat \<Rightarrow> string \<Rightarrow> (json \<times> string) option"
  and parse_elements :: "nat \<Rightarrow> string \<Rightarrow> (json list \<times> string) option"
  and parse_members :: "nat \<Rightarrow> string \<Rightarrow> ((string \<times> json) list \<times> string) option" where
  "parse_value 0 s = None"
| "parse_value (Suc n) s =
     (let t = dropWhile json_ws s
      in if startsWith t ''null'' then Some (JNull, drop 4 t)
         else if startsWith t ''true'' then Some (JBool True, drop 4 t)
         else if startsWith t ''false'' then Some (JBool False, drop 5 t)
         else if startsWith t [CHR 0x22] then
           map_option (\<lambda>(str, rest). (JStr str, rest)) (parse_chars (drop 1 t))
         else if startsWith t ''['' then
           (if startsWith (dropWhile json_ws (drop 1 t)) '']''
            then Some (JArr [], drop 1 (dropWhile json_ws (drop 1 t)))
            else map_option (\<lambda>(xs, rest). (JArr xs, rest)) (parse_elements n (drop 1 t)))
         else if startsWith t ''{'' then
           (if startsWith (dropWhile json_ws (drop 1 t)) ''}''
            then Some (JObj [], drop 1 (dropWhile json_ws (drop 1 t)))
            else map_option (\<lambda>(kvs, rest). (JObj (fold (\<lambda>(k, v). update_entry k v) kvs []), rest))
                   (parse_members n (drop 1 t)))
         else parse_number t)"
| "parse_elements 0 s = None"
| "parse_elements (Suc n) s =
     (case parse_value n s of
        None \<Rightarrow> None
      | Some (x, r) \<Rightarrow>
          (let t = dropWhile json_ws r
           in if startsWith t '']'' then Some ([x], drop 1 t)
              else if startsWith t '','' then
                map_option (\<lambda>(xs, rest). (x # xs, rest)) (parse_elements n (drop 1 t))
              else None))"
| "parse_members 0 s = None"
| "parse_members (Suc n) s =
     (let t = dropWhile json_ws s
      in if startsWith t [CHR 0x22] then
           (case parse_chars (drop 1 t) of
              None \<Rightarrow> None
            | Some (k, r) \<Rightarrow>
                (let t' = dropWhile json_ws r
                 in if startsWith t' '':'' then
                      (case parse_value n (drop 1 t') of
                         None \<Rightarrow> None
                       | Some (v, r') \<Rightarrow>
                           (let t'' = dropWhile json_ws r'
                            in if startsWith t'' ''}'' then Some ([(k, v)], drop 1 t'')
                               else if startsWith t'' '','' then
                                 map_option (\<lambda>(kvs, rest). ((k, v) # kvs, rest))
                                   (parse_members n (drop 1 t''))
                               else None))
                    else None))
         else None)"

definition parse :: "string \<Rightarrow> json option" where
  "parse s =
     (case parse_value (Suc (length s)) s of
        None \<Rightarrow> None
      | Some (v, r) \<Rightarrow> if dropWhile json_ws r = [] then Some v else None)"

text \<open>Base64 of the UTF-8 bytes of a text.\<close>

definition b64_alphabet :: string where
  "b64_alphabet = ''ABCDEFGHIJKLMNOPQRSTUVWXYZabcdefghijklmnopqrstuvwxyz0123456789+/''"

fun utf8_bytes :: "string \<Rightarrow> nat list" where
  "utf8_bytes [] = []"
| "utf8_bytes (c # cs) =
     (if of_char c < (128::nat) then of_char c # utf8_bytes cs
      else (192 + of_char c div 64) # (128 + of_char c mod 64) # utf8_bytes cs)"

fun b64_encode :: "nat list \<Rightarrow> string" where
  "b64_encode [] = []"
| "b64_encode [a] =
     [b64_alphabet ! (a div 4), b64_alphabet ! (a mod 4 * 16), CHR ''='', CHR ''='']"
| "b64_encode [a, b] =
     [b64_alphabet ! (a div 4), b64_alphabet ! (a mod 4 * 16 + b div 16),
      b64_alphabet ! (b mod 16 * 4), CHR ''='']"
| "b64_encode (a # b # c # bs) =
     [b64_alphabet ! (a div 4), b64_alphabet ! (a mod 4 * 16 + b div 16),
      b64_alphabet ! (b mod 16 * 4 + c div 64), b64_alphabet ! (c mod 64)] @ b64_encode bs"

text \<open>The value of a base64 digit.\<close>

definition sextet :: "char \<Rightarrow> nat option" where
  "sextet c =
     (let n = (of_char c :: nat)
      in if 65 \<le> n \<and> n \<le> 90 then Some (n - 65)
         else if 97 \<le> n \<and> n \<le> 122 then Some (n - 71)
         else if 48 \<le> n \<and> n \<le> 57 then Some (n + 4)
         else if n = 43 then Some 62
         else if n = 47 then Some 63
         else None)"

text \<open>The sextets of a base64 text, up to the padding; other characters are skipped.\<close>

fun sextets :: "string \<Rightarrow> nat list" where
  "sextets [] = []"
| "sextets (c # cs) =
     (if c = CHR ''='' then []
      else (case sextet c of
              None \<Rightarrow> sextets cs
            | Some v \<Rightarrow> v # sextets cs))"

fun b64_bytes :: "nat list \<Rightarrow> nat list" where
  "b64_bytes (p # q # r # s # vs) =
     (p * 4 + q div 16) # (q mod 16 * 16 + r div 4) # (r mod 4 * 64 + s) # b64_bytes vs"
| "b64_bytes [p, q, r] = [p * 4 + q div 16, q mod 16 * 16 + r div 4]"
| "b64_bytes [p, q] = [p * 4 + q div 16]"
| "b64_bytes vs = []"

text \<open>
  UTF-8 decoding of the one- and two-byte sequences of the code points below 256; any
  other byte is replaced (by \<^verbatim>\<open>?\<close> here, the model having no U+FFFD).
\<close>

fun utf8_text :: "nat list \<Rightarrow> string" where
  "utf8_text [] = []"
| "utf8_text [a] = (if a < 128 then [char_of a] else ''?'')"
| "utf8_text (a # b # bs) =
     (if a < 128 then char_of a # utf8_text (b # bs)
      else if (a = 194 \<or> a = 195) \<and> 128 \<le> b \<and> b < 192
        then char_of ((a - 192) * 64 + (b - 128)) # utf8_text bs
      else CHR ''?'' # utf8_text (b # bs))"

definition ascii_lower :: "char \<Rightarrow> char" where
  "ascii_lower c =
     (if 65 \<le> (of_char c :: nat) \<and> (of_char c :: nat) \<le> 90
      then char_of (of_char c + (32::nat)) else c)"

definition ascii_upper :: "char \<Rightarrow> char" where
  "ascii_upper c =
     (if 97 \<le> (of_char c :: nat) \<and> (of_char c :: nat) \<le> 122
      then char_of (of_char c - (32::nat)) else c)"

definition ascii_runtime :: platform where
  "ascii_runtime =
     \<lparr> JSON_parse = parse,
       JSON_stringify = (\<lambda>n v. stringify (min n 10) 0 v),
       toBase64 = (\<lambda>s. b64_encode (utf8_bytes s)),
       fromBase64 = (\<lambda>s. utf8_text (b64_bytes (sextets s))),
       ToNumber = (\<lambda>v. None),
       ToString = (\<lambda>v. []),
       toLowerCase = map ascii_lower,
       toUpperCase = map ascii_upper \<rparr>"


section \<open>The header entries each source supplies\<close>

text \<open>
  For stating what the header merge of \<^verbatim>\<open>execute\<close> keeps: the entries of the parsed
  credential headers, of the user headers (rows or JSON) and of the mapped
  \<^verbatim>\<open>header_*\<close> fields, each as the source gives them, before any \<^verbatim>\<open>token\<close> key is
  removed. Among the mapped fields a later one wins.
\<close>

definition credentialHeaderEntries :: "platform \<Rightarrow> api_item \<Rightarrow> (string \<rightharpoonup> json)" where
  "credentialHeaderEntries P it =
     (case credentials it of
        Inl msg \<Rightarrow> Map.empty
      | Inr credText \<Rightarrow>
          if credText \<noteq> [] then
            (case JSON_parse P credText of
               None \<Rightarrow> Map.empty
             | Some credHeaders \<Rightarrow> map_of (own_props credHeaders))
          else Map.empty)"

definition userHeaderEntries :: "platform \<Rightarrow> api_item \<Rightarrow> (string \<rightharpoonup> json)" where
  "userHeaderEntries P it =
     (if sendHeaders it then
        (if specifyHeaders it = ''keypair'' then
           (case headers it of Some rows \<Rightarrow> rowsObject rows | None \<Rightarrow> Map.empty)
         else
           (case JSON_parse P (headersJson it) of
              None \<Rightarrow> Map.empty
            | Some userHdrs \<Rightarrow> map_of (own_props userHdrs)))
      else Map.empty)"

fun headerFields :: "(string \<times> json) list \<Rightarrow> (string \<rightharpoonup> json)" where
  "headerFields [] = Map.empty"
| "headerFields ((key, v) # kvs) =
     (if startsWith key ''header_'' then [drop 7 key \<mapsto> v] else Map.empty) ++ headerFields kvs"

definition mappedHeaderEntries :: "api_item \<Rightarrow> (string \<rightharpoonup> json)" where
  "mappedHeaderEntries it =
     (case parametersFields it of
        None \<Rightarrow> Map.empty
      | Some params \<Rightarrow> if truthy params then headerFields (own_props params) else Map.empty)"

text \<open>
  A casing variant of \<^verbatim>\<open>token\<close> other than \<^verbatim>\<open>token\<close> itself, such as \<^verbatim>\<open>Token\<close> or
  \<^verbatim>\<open>TOKEN\<close>.
\<close>

definition tokenCaseVariant :: "string \<Rightarrow> bool" where
  "tokenCaseVariant k = (map ascii_lower k = ''token'' \<and> k \<noteq> ''token'')"

text \<open>
  An encoded selection for the examples: the base64 text of
  \<^verbatim>\<open>{"id":7,"interfaceId":"3b52426bfe33","version":"1","name":"Weather",\<close>
  \<^verbatim>\<open>"interface":{"paths":{"/weather":{"post":{"requestBody":{"content":\<close>
  \<^verbatim>\<open>{"application/json":{}}}}}}}}\<close>, and an item that selects it.
\<close>

definition weather_selection :: string where
  "weather_selection =
     ''eyJpZCI6NywiaW50ZXJmYWNlSWQiOiIzYjUyNDI2YmZlMzMiLCJ2ZXJzaW9uIjoiMSIsIm5hbWUiOiJX'' @
     ''ZWF0aGVyIiwiaW50ZXJmYWNlIjp7InBhdGhzIjp7Ii93ZWF0aGVyIjp7InBvc3QiOnsicmVxdWVzdEJv'' @
     ''ZHkiOnsiY29udGVudCI6eyJhcHBsaWNhdGlvbi9qc29uIjp7fX19fX19fX0=''"

definition weather_item :: api_item where
  "weather_item =
     \<lparr> token = ''t1'', apiSelection = weather_selection, method = ''POST'',
       baseUri = ''https://superiorapis-creator.cteam.com.tw'',
       credentials = Inr [], sendHeaders = False, specifyHeaders = ''keypair'',
       headers = None, headersJson = ''{}'', sendQuery = False, specifyQuery = ''keypair'',
       queryParameters = None, queryParametersJson = ''{}'', scenario = [],
       parametersFields = None, bodyJson = [], bodyFields = None \<rparr>"


text \<open>
  Items for the examples. \<open>token_attack_item\<close>: every less trusted source supplies a
  \<^verbatim>\<open>token\<close> key and a differently cased one. \<open>default_body_item\<close>: the scenario
  \<^verbatim>\<open>no_use_scenario\<close> with a Body JSON text and a mapped body field.
  \<open>blank_body_item\<close>: a scenario template selected and a Body JSON text that is
  \<^verbatim>\<open>{}\<close> between blanks.
\<close>

definition token_attack_item :: api_item where
  \<open>token_attack_item =
     weather_item
       \<lparr> credentials := Inr ''{"token":"c1","Token":"c2"}'',
         sendHeaders := True, specifyHeaders := ''json'',
         headersJson := ''{"token":"u1","TOKEN":"u2"}'',
         scenario := ''no_use_scenario'',
         parametersFields :=
           Some (JObj [(''header_token'', JStr ''m1''), (''header_toKen'', JStr ''m2''),
                       (''query_city'', JStr ''Paris'')]) \<rparr>\<close>

definition default_body_item :: api_item where
  \<open>default_body_item =
     weather_item
       \<lparr> scenario := ''no_use_scenario'',
         bodyJson := ''{"a":1}'',
         bodyFields := Some (JObj [(''body_city'', JStr ''Paris'')]) \<rparr>\<close>

definition blank_body_item :: api_item where
  \<open>blank_body_item =
     weather_item \<lparr> scenario := ''{"city": "Paris"}'', bodyJson := '' {}  '' \<rparr>\<close>


section \<open>The SuperiorAPIs node: \<^verbatim>\<open>getScenarioList\<close>\<close>

text \<open>An option of a drop-down list: \<^verbatim>\<open>{ name, value }\<close>.\<close>

record node_option =
  opt_name :: "json option"
  opt_value :: "json option"

definition useDefaultOption :: node_option where
  "useDefaultOption =
     \<lparr> opt_name = Some (JStr ''Use Default Request Body''),
       opt_value = Some (JStr ''no_use_scenario'') \<rparr>"

definition noScenarioOption :: "platform \<Rightarrow> string \<Rightarrow> node_option" where
  "noScenarioOption P m =
     \<lparr> opt_name = Some (JStr (''No scenario templates available for '' @ toUpperCase P m @ '' method'')),
       opt_value = Some (JStr ''no_scenario'') \<rparr>"

definition loadFailedOption :: node_option where
  "loadFailedOption =
     \<lparr> opt_name = Some (JStr ''Failed to load scenario list. Please check network connection.''),
       opt_value = Some (JStr ''error'') \<rparr>"

text \<open>
  The default request body that the function computes and then drops. Nothing of it
  reaches the result, but its property reads can throw: \<^verbatim>\<open>content['application/json']\<close>
  on a missing \<^verbatim>\<open>content\<close>, and \<^verbatim>\<open>prop.type\<close> on a property whose schema is
  \<^verbatim>\<open>null\<close>.
\<close>

definition defaultBodyReads :: "json option \<Rightarrow> error + unit" where
  "defaultBodyReads methodData =
     (if truthy_opt methodData \<and> truthy_opt (optProp methodData ''requestBody'') then
        andThen (getProp (optProp (optProp methodData ''requestBody'') ''content'') ''application/json'')
          (\<lambda>jsonContent.
             let properties = optProp (optProp jsonContent ''schema'') ''properties''
             in if truthy_opt jsonContent \<and> truthy_opt (optProp jsonContent ''schema'') \<and>
                   truthy_opt properties then
                  (case properties of
                     None \<Rightarrow> Inr ()
                   | Some props \<Rightarrow>
                       if list_ex (\<lambda>(key, p). p = JNull) (own_props props) then Inl TypeError
                       else Inr ())
                else Inr ())
      else Inr ())"

text \<open>A property with an undefined value is left out when the request body is serialised.\<close>

fun entry :: "string \<Rightarrow> json option \<Rightarrow> (string \<times> json) list" where
  "entry k None = []"
| "entry k (Some v) = [(k, v)]"

text \<open>Everything of the \<^verbatim>\<open>try\<close> block up to the request for the scenario list.\<close>

definition scenarioListRequest :: "platform \<Rightarrow> api_item \<Rightarrow> error + http_request" where
  "scenarioListRequest P it =
     andThen (decodeSelection P (apiSelection it)) (\<lambda>pluginData.
     andThen (getProp (Some pluginData) ''interfaceId'') (\<lambda>interfaceId.
     andThen (getProp (Some pluginData) ''version'') (\<lambda>version.
     andThen (getProp (Some pluginData) ''interface'') (\<lambda>iface.
     andThen (getProp iface ''paths'') (\<lambda>paths.
     andThen (object_keys paths) (\<lambda>pathKeys.
     andThen (getProp paths (key_string (first pathKeys))) (\<lambda>pathMethods.
     andThen (getProp pathMethods (toLowerCase P (method it))) (\<lambda>methodData.
     andThen (defaultBodyReads methodData) (\<lambda>u.
       Inr \<lparr> req_method = ''POST'',
             req_url = ''https://superiorapis.cteam.com.tw/superiorapis_store/node/scenario_sample_list'',
             req_qs = JObj [],
             req_headers = [''token'' \<mapsto> JStr (token it),
                            ''Content-Type'' \<mapsto> JStr ''application/json''],
             req_body = Some (JObj ([(''method'', JStr (toLowerCase P (method it)))] @
                                    entry ''interface_id'' interfaceId @
                                    entry ''version'' version @
                                    [(''version_suffix'', JStr [])])) \<rparr>)))))))))"

definition scenarioDetailRequest :: "platform \<Rightarrow> api_item \<Rightarrow> json \<Rightarrow> http_request" where
  "scenarioDetailRequest P it sc =
     \<lparr> req_method = ''GET'',
       req_url = ''https://superiorapis.cteam.com.tw/superiorapis_store/node/scenario?scenario_id=''
                 @ to_string P (own_get sc ''scenario_id''),
       req_qs = JObj [],
       req_headers = [''token'' \<mapsto> JStr (token it)],
       req_body = None \<rparr>"

text \<open>
  The callback of \<^verbatim>\<open>response.data.list.map\<close> for one scenario. Inside its \<^verbatim>\<open>try\<close>
  every failure falls through to the option that carries the scenario id; the read of
  \<^verbatim>\<open>scenario.scenario_name\<close> after it throws on a \<^verbatim>\<open>null\<close> scenario.
\<close>

definition scenarioOption ::
  "platform \<Rightarrow> (http_request \<Rightarrow> error + json) \<Rightarrow> api_item \<Rightarrow> json \<Rightarrow> error + node_option" where
  "scenarioOption P net it sc =
     (if sc = JNull then Inl TypeError
      else
        (let fallback = \<lparr> opt_name = own_get sc ''scenario_name'',
                            opt_value = own_get sc ''scenario_id'' \<rparr>
         in case net (scenarioDetailRequest P it sc) of
              Inl e \<Rightarrow> Inr fallback
            | Inr detail \<Rightarrow>
                if detail \<noteq> JNull \<and> own_get detail ''status'' = Some (JNum 1) \<and>
                   truthy_opt (optProp (own_get detail ''data'') ''request_content'')
                then (case optProp (own_get detail ''data'') ''request_content'' of
                        Some requestContent \<Rightarrow>
                          Inr \<lparr> opt_name = own_get sc ''scenario_name'',
                                opt_value = Some (JStr (JSON_stringify P 4 requestContent)) \<rparr>
                      | None \<Rightarrow> Inr fallback)
                else Inr fallback))"

text \<open>\<^verbatim>\<open>Promise.all\<close>: all the results in order, or the first rejection.\<close>

fun allOf :: "(error + 'a) list \<Rightarrow> error + 'a list" where
  "allOf [] = Inr []"
| "allOf (r # rs) = andThen r (\<lambda>x. andThen (allOf rs) (\<lambda>xs. Inr (x # xs)))"

text \<open>\<^verbatim>\<open>v > 0\<close> for a possibly undefined \<open>v\<close>.\<close>

definition positive :: "platform \<Rightarrow> json option \<Rightarrow> bool" where
  "positive P v =
     (case v of
        None \<Rightarrow> False
      | Some x \<Rightarrow> (case to_number P x of None \<Rightarrow> False | Some n \<Rightarrow> 0 < n))"

text \<open>What the function returns once the scenario list has answered.\<close>

definition scenarioOptions ::
  "platform \<Rightarrow> (http_request \<Rightarrow> error + json) \<Rightarrow> api_item \<Rightarrow> json \<Rightarrow> error + node_option list" where
  "scenarioOptions P net it response =
     andThen (getProp (Some response) ''status'') (\<lambda>status.
       let list = optProp (own_get response ''data'') ''list''
       in if status = Some (JNum 1) \<and> truthy_opt list \<and> positive P (optProp list ''length'') then
            (case list of
               Some (JArr scenarios) \<Rightarrow>
                 andThen (allOf (map (scenarioOption P net it) scenarios))
                   (\<lambda>scenariosWithContent. Inr (useDefaultOption # scenariosWithContent))
             | _ \<Rightarrow> Inl TypeError)
          else Inr [useDefaultOption, noScenarioOption P (method it)])"

definition getScenarioList ::
  "platform \<Rightarrow> (http_request \<Rightarrow> error + json) \<Rightarrow> api_item \<Rightarrow> node_option list" where
  "getScenarioList P net it =
     (if apiSelection it = [] \<or> method it = [] then []
      else
        (case andThen (scenarioListRequest P it) (\<lambda>rq.
                andThen (net rq) (scenarioOptions P net it)) of
           Inr options \<Rightarrow> options
         | Inl e \<Rightarrow> [useDefaultOption, loadFailedOption]))"


text \<open>A network for the examples: the scenario list answers with status 1 and no scenario.\<close>

definition emptyScenarioNet :: "http_request \<Rightarrow> error + json" where
  "emptyScenarioNet rq = Inr (JObj [(''status'', JNum 1), (''data'', JObj [(''list'', JArr [])])])"


section \<open>The SuperiorAPIs node: \<^verbatim>\<open>getParametersFields\<close> and \<^verbatim>\<open>getBodyFields\<close>\<close>

text \<open>A \<^verbatim>\<open>ResourceMapperField\<close> as the two functions fill it.\<close>

record mapper_field =
  field_id :: string
  field_displayName :: string
  field_required :: json
  field_defaultMatch :: bool
  field_display :: bool
  field_type :: string
  field_canBeUsedToMatch :: bool

text \<open>\<^verbatim>\<open>v || d\<close>\<close>

fun js_or :: "json option \<Rightarrow> json \<Rightarrow> json" where
  "js_or None d = d"
| "js_or (Some v) d = (if truthy v then v else d)"

definition mapSchemaTypeToFieldType :: "platform \<Rightarrow> json \<Rightarrow> string" where
  "mapSchemaTypeToFieldType P schemaType =
     (case map_of [(''string'', ''string''), (''number'', ''number''), (''integer'', ''number''),
                   (''boolean'', ''boolean''), (''array'', ''array''), (''object'', ''object'')]
             (to_string P (Some schemaType)) of
        Some t \<Rightarrow> t
      | None \<Rightarrow> ''string'')"

text \<open>
  \<^verbatim>\<open>fields.sort((a, b) => ...)\<close> with the comparator of the source on the
  \<^verbatim>\<open>required\<close> flags. \<^verbatim>\<open>Array.prototype.sort\<close> is a stable sort (ECMAScript 2019);
  it is modelled by insertion from the right, which is stable too, and for a comparator
  that orders by one flag every stable sort gives the same list.
\<close>

definition compareRequired :: "mapper_field \<Rightarrow> mapper_field \<Rightarrow> int" where
  "compareRequired a b =
     (if truthy (field_required a) \<and> \<not> truthy (field_required b) then - 1
      else if \<not> truthy (field_required a) \<and> truthy (field_required b) then 1
      else 0)"

fun insertBy :: "('a \<Rightarrow> 'a \<Rightarrow> int) \<Rightarrow> 'a \<Rightarrow> 'a list \<Rightarrow> 'a list" where
  "insertBy cmp x [] = [x]"
| "insertBy cmp x (y # ys) = (if cmp x y \<le> 0 then x # y # ys else y # insertBy cmp x ys)"

definition js_sort :: "('a \<Rightarrow> 'a \<Rightarrow> int) \<Rightarrow> 'a list \<Rightarrow> 'a list" where
  "js_sort cmp xs = foldr (insertBy cmp) xs []"

text \<open>The operation object of the selected method: \<^verbatim>\<open>pathMethods[method.toLowerCase()]\<close>.\<close>

definition selectedMethodData :: "platform \<Rightarrow> api_item \<Rightarrow> error + json option" where
  "selectedMethodData P it =
     andThen (decodeSelection P (apiSelection it)) (\<lambda>pluginData.
     andThen (getProp (Some pluginData) ''interface'') (\<lambda>iface.
     andThen (getProp iface ''paths'') (\<lambda>paths.
     andThen (object_keys paths) (\<lambda>pathKeys.
     andThen (getProp paths (key_string (first pathKeys))) (\<lambda>pathMethods.
       getProp pathMethods (toLowerCase P (method it)))))))"

text \<open>The field pushed for one entry of \<^verbatim>\<open>methodData.parameters\<close>.\<close>

definition parameterField :: "platform \<Rightarrow> json \<Rightarrow> error + mapper_field" where
  "parameterField P param =
     (if param = JNull then Inl TypeError
      else
        (let inType = (if own_get param ''in'' = Some (JStr ''query'') then ''[Q]'' else ''[H]'');
             description = (if truthy_opt (own_get param ''description'')
                            then '' - '' @ to_string P (own_get param ''description'') else [])
         in Inr \<lparr> field_id = to_string P (own_get param ''in'') @ ''_'' @
                               to_string P (own_get param ''name''),
                   field_displayName =
                     to_string P (own_get param ''name'') @
                     (if truthy_opt (own_get param ''required'') then '' *'' else []) @
                     '' '' @ inType @ description,
                   field_required = js_or (own_get param ''required'') (JBool False),
                   field_defaultMatch = True,
                   field_display = True,
                   field_type =
                     mapSchemaTypeToFieldType P
                       (js_or (optProp (own_get param ''schema'') ''type'') (JStr ''string'')),
                   field_canBeUsedToMatch = True \<rparr>))"

text \<open>The fields in the order of the \<^verbatim>\<open>forEach\<close>, before the sort.\<close>

definition pushedParameterFields :: "platform \<Rightarrow> api_item \<Rightarrow> error + mapper_field list" where
  "pushedParameterFields P it =
     andThen (selectedMethodData P it) (\<lambda>methodData.
       if \<not> truthy_opt methodData then Inr []
       else if truthy_opt (optProp methodData ''parameters'') then
         (case optProp methodData ''parameters'' of
            Some (JArr params) \<Rightarrow> allOf (map (parameterField P) params)
          | _ \<Rightarrow> Inl TypeError)
       else Inr [])"

definition getParametersFields :: "platform \<Rightarrow> api_item \<Rightarrow> mapper_field list" where
  "getParametersFields P it =
     (if scenario it = ''no_use_scenario'' \<and> method it \<noteq> [] \<and> apiSelection it \<noteq> [] then
        (case pushedParameterFields P it of
           Inl e \<Rightarrow> []
         | Inr fs \<Rightarrow> js_sort compareRequired fs)
      else [])"

text \<open>\<^verbatim>\<open>required.includes(key)\<close> on \<^verbatim>\<open>schema.required || []\<close>.\<close>

fun requiredIncludes :: "json \<Rightarrow> string \<Rightarrow> error + bool" where
  "requiredIncludes (JArr xs) key = Inr (JStr key \<in> set xs)"
| "requiredIncludes (JStr s) key = Inr (includes_str s key)"
| "requiredIncludes v key = Inl TypeError"

text \<open>The field pushed for one property of the JSON body schema.\<close>

definition bodyField :: "platform \<Rightarrow> json \<Rightarrow> string \<times> json \<Rightarrow> error + mapper_field" where
  "bodyField P required kp =
     (case kp of (key, p) \<Rightarrow>
        if p = JNull then Inl TypeError
        else
          andThen (requiredIncludes required key) (\<lambda>isRequired.
            let description = (if truthy_opt (own_get p ''description'')
                               then '' - '' @ to_string P (own_get p ''description'') else [])
            in Inr \<lparr> field_id = ''body_'' @ key,
                      field_displayName = key @ (if isRequired then '' *'' else []) @ description,
                      field_required = JBool isRequired,
                      field_defaultMatch = True,
                      field_display = True,
                      field_type =
                        mapSchemaTypeToFieldType P (js_or (own_get p ''type'') (JStr ''string'')),
                      field_canBeUsedToMatch = True \<rparr>))"

definition pushedBodyFields :: "platform \<Rightarrow> api_item \<Rightarrow> error + mapper_field list" where
  "pushedBodyFields P it =
     andThen (selectedMethodData P it) (\<lambda>methodData.
       if \<not> truthy_opt methodData \<or> \<not> truthy_opt (optProp methodData ''requestBody'') then Inr []
       else
         andThen (getProp (optProp (optProp methodData ''requestBody'') ''content'') ''application/json'')
           (\<lambda>jsonContent.
              let schema = optProp jsonContent ''schema'';
                  properties = optProp schema ''properties''
              in if truthy_opt jsonContent \<and> truthy_opt schema \<and> truthy_opt properties then
                   (case properties of
                      None \<Rightarrow> Inr []
                    | Some props \<Rightarrow>
                        allOf (map (bodyField P (js_or (optProp schema ''required'') (JArr [])))
                                 (own_props props)))
                 else Inr []))"

definition getBodyFields :: "platform \<Rightarrow> api_item \<Rightarrow> mapper_field list" where
  "getBodyFields P it =
     (if scenario it = ''no_use_scenario'' \<and>
         toUpperCase P (method it) \<in> set [''POST'', ''PUT'', ''PATCH''] \<and> apiSelection it \<noteq> [] then
        (case pushedBodyFields P it of
           Inl e \<Rightarrow> []
         | Inr fs \<Rightarrow> js_sort compareRequired fs)
      else [])"

text \<open>The order the claim asks for: the required fields, then the others, each group in
  the order it had.\<close>

definition requiredFirst :: "mapper_field list \<Rightarrow> mapper_field list" where
  "requiredFirst fs =
     filter (\<lambda>f. truthy (field_required f)) fs @
     filter (\<lambda>f. \<not> truthy (field_required f)) fs"

text \<open>
  A selection for the examples with three parameters (the second and third required) and
  three body properties (the second and third required), and an item that selects it.
\<close>

definition fields_selection :: string where
  "fields_selection =
     ''eyJpbnRlcmZhY2UiOnsicGF0aHMiOnsiL3ciOnsicG9zdCI6eyJwYXJhbWV0ZXJzIjpbeyJuYW1lIjoi'' @
     ''YSIsImluIjoicXVlcnkifSx7Im5hbWUiOiJiIiwiaW4iOiJoZWFkZXIiLCJyZXF1aXJlZCI6dHJ1ZX0s'' @
     ''eyJuYW1lIjoiYyIsImluIjoicXVlcnkiLCJyZXF1aXJlZCI6dHJ1ZX1dLCJyZXF1ZXN0Qm9keSI6eyJj'' @
     ''b250ZW50Ijp7ImFwcGxpY2F0aW9uL2pzb24iOnsic2NoZW1hIjp7InByb3BlcnRpZXMiOnsieCI6e30s'' @
     ''InkiOnt9LCJ6Ijp7fX0sInJlcXVpcmVkIjpbInkiLCJ6Il19fX19fX19fX0=''"

definition fields_item :: api_item where
  "fields_item =
     weather_item \<lparr> apiSelection := fields_selection, scenario := ''no_use_scenario'' \<rparr>"


text \<open>A field of type \<^verbatim>\<open>string\<close> with the constant flags, for writing the examples down.\<close>

definition mkField :: "string \<Rightarrow> string \<Rightarrow> bool \<Rightarrow> mapper_field" where
  "mkField i d r =
     \<lparr> field_id = i, field_displayName = d, field_required = JBool r,
       field_defaultMatch = True, field_display = True, field_type = ''string'',
       field_canBeUsedToMatch = True \<rparr>"


section \<open>The MCP node: parameters of one input item\<close>

text \<open>
  \<^verbatim>\<open>s.split(sep)\<close> for a string separator: the pieces between the occurrences of
  \<open>sep\<close>, found from the left without overlap. \<open>split_go\<close> walks the string;
  its counter skips the rest of a separator that has just matched.
\<close>

fun split_go :: "string \<Rightarrow> nat \<Rightarrow> string \<Rightarrow> string \<Rightarrow> string list" where
  "split_go sep k acc [] = [rev acc]"
| "split_go sep (Suc k) acc (c # cs) = split_go sep k acc cs"
| "split_go sep 0 acc (c # cs) =
     (if startsWith (c # cs) sep then rev acc # split_go sep (length sep - 1) [] cs
      else split_go sep 0 (c # acc) cs)"

definition split :: "string \<Rightarrow> string \<Rightarrow> string list" where
  "split s sep = (if sep = [] then map (\<lambda>c. [c]) s else split_go sep 0 [] s)"

text \<open>\<^verbatim>\<open>line.indexOf('=')\<close>: \<open>None\<close> for \<^verbatim>\<open>-1\<close>.\<close>

fun indexOf :: "string \<Rightarrow> char \<Rightarrow> nat option" where
  "indexOf [] c = None"
| "indexOf (x # xs) c = (if x = c then Some 0 else map_option Suc (indexOf xs c))"

text \<open>
  The credentials of the two transports: rejected with a message, or the URL, the
  timeout (0 when unset) and the header lines (empty when unset). The resolved
  parameters of item \<open>i\<close> follow the node's property list.
\<close>

record transport_credentials =
  cred_url :: string
  cred_timeout :: int
  cred_headers :: string

record mcp_item =
  connectionType :: string
  operation :: string
  toolName :: string
  parameters :: string
  resourceUri :: string
  promptName :: string
  sseCredentials :: "string + transport_credentials"
  httpCredentials :: "string + transport_credentials"

section \<open>The MCP node: \<^verbatim>\<open>execute\<close>\<close>

text \<open>The JSON-RPC request; \<open>now\<close> is \<^verbatim>\<open>Date.now()\<close>.\<close>

definition mcpRequest :: "platform \<Rightarrow> int \<Rightarrow> mcp_item \<Rightarrow> error + json" where
  "mcpRequest P now it =
     (let base = [(''jsonrpc'', JStr ''2.0''), (''method'', JStr (operation it)), (''id'', JNum now)]
      in if operation it = ''tools/call'' then
           (case JSON_parse P (parameters it) of
              None \<Rightarrow> Inl SyntaxError
            | Some toolParams \<Rightarrow>
                Inr (JObj (base @ [(''params'', JObj [(''name'', JStr (toolName it)),
                                                     (''arguments'', toolParams)])])))
         else if operation it = ''resources/read'' then
           Inr (JObj (base @ [(''params'', JObj [(''uri'', JStr (resourceUri it))])]))
         else if operation it = ''prompts/get'' then
           (case JSON_parse P (parameters it) of
              None \<Rightarrow> Inl SyntaxError
            | Some promptParams \<Rightarrow>
                Inr (JObj (base @ [(''params'', JObj [(''name'', JStr (promptName it)),
                                                     (''arguments'', promptParams)])])))
         else Inr (JObj base))"

text \<open>The custom headers: one \<^verbatim>\<open>key=value\<close> per line.\<close>

definition headerLine :: "string \<Rightarrow> (string \<rightharpoonup> json) \<Rightarrow> (string \<rightharpoonup> json)" where
  "headerLine line mcpHeaders =
     (case indexOf line CHR ''='' of
        None \<Rightarrow> mcpHeaders
      | Some equalsIndex \<Rightarrow>
          if 0 < equalsIndex then
            (let name = trim (take equalsIndex line);
                 v = trim (drop (equalsIndex + 1) line)
             in if name \<noteq> [] then js_set name (JStr v) mcpHeaders else mcpHeaders)
          else mcpHeaders)"

definition customHeaders :: "string \<Rightarrow> (string \<rightharpoonup> json)" where
  "customHeaders text =
     (if text \<noteq> [] then fold headerLine (split text [CHR 0x0A]) Map.empty else Map.empty)"

definition orDefaultTimeout :: "int \<Rightarrow> int" where
  "orDefaultTimeout t = (if t \<noteq> 0 then t else 60000)"

text \<open>
  The environment of one item: \<open>sse url request headers timeout\<close> is the awaited
  \<^verbatim>\<open>handleSSERequest\<close>, \<open>http request timeout\<close> the awaited \<^verbatim>\<open>helpers.httpRequest\<close>.
\<close>

record mcp_env =
  sse :: "string \<Rightarrow> json \<Rightarrow> (string \<rightharpoonup> json) \<Rightarrow> int \<Rightarrow> error + json list"
  http :: "http_request \<Rightarrow> int \<Rightarrow> error + json"

text \<open>The record pushed for an SSE result.\<close>

definition sseRecord :: "json list \<Rightarrow> json" where
  "sseRecord sseData =
     (case sseData of
        [single] \<Rightarrow> single
      | _ \<Rightarrow> JObj [(''messages'', JArr sseData), (''messageCount'', JNum (int (length sseData)))])"

text \<open>
  The body of the \<^verbatim>\<open>try\<close> block for item \<open>i\<close>: the records it appends to
  \<^verbatim>\<open>returnData\<close>, or the exception.
\<close>

definition mcpItem ::
  "platform \<Rightarrow> mcp_env \<Rightarrow> int \<Rightarrow> nat \<Rightarrow> mcp_item \<Rightarrow> error + out_item list" where
  "mcpItem P env now i it =
     andThen (mcpRequest P now it) (\<lambda>request.
       if connectionType it = ''sse'' then
         (case sseCredentials it of
            Inl msg \<Rightarrow> Inl (HostError msg)
          | Inr c \<Rightarrow>
              (let mcpHeaders =
                     ((((customHeaders (cred_headers c))
                          (''Accept'' \<mapsto> JStr ''text/event-stream''))
                          (''Cache-Control'' \<mapsto> JStr ''no-cache''))
                          (''Connection'' \<mapsto> JStr ''keep-alive''))
                          (''Content-Type'' \<mapsto> JStr ''application/json'')
               in andThen (sse env (cred_url c) request mcpHeaders (orDefaultTimeout (cred_timeout c)))
                    (\<lambda>sseData. Inr [ItemResult (sseRecord sseData) i])))
       else if connectionType it = ''http'' then
         (case httpCredentials it of
            Inl msg \<Rightarrow> Inl (HostError msg)
          | Inr c \<Rightarrow>
              (let mcpHeaders = (customHeaders (cred_headers c))
                                  (''Content-Type'' \<mapsto> JStr ''application/json'')
               in andThen (http env \<lparr> req_method = ''POST'', req_url = cred_url c,
                                       req_qs = JObj [], req_headers = mcpHeaders,
                                       req_body = Some request \<rparr>
                                    (orDefaultTimeout (cred_timeout c)))
                    (\<lambda>response. Inr [ItemResult response i])))
       else Inr [])"

text \<open>The loop over the items; \<open>clock i\<close> is \<^verbatim>\<open>Date.now()\<close> at item \<open>i\<close>.\<close>

fun mcpExecuteFrom ::
  "platform \<Rightarrow> mcp_env \<Rightarrow> (nat \<Rightarrow> int) \<Rightarrow> bool \<Rightarrow> nat \<Rightarrow> mcp_item list
     \<Rightarrow> out_item list \<Rightarrow> error + out_item list" where
  "mcpExecuteFrom P env clock continueOnFail i [] returnData = Inr returnData"
| "mcpExecuteFrom P env clock continueOnFail i (it # items) returnData =
     (case mcpItem P env (clock i) i it of
        Inr records \<Rightarrow>
          mcpExecuteFrom P env clock continueOnFail (Suc i) items (returnData @ records)
      | Inl e \<Rightarrow>
          if continueOnFail then
            mcpExecuteFrom P env clock continueOnFail (Suc i) items
              (returnData @ [ItemError e i])
          else Inl e)"

definition mcpExecute ::
  "platform \<Rightarrow> mcp_env \<Rightarrow> (nat \<Rightarrow> int) \<Rightarrow> bool \<Rightarrow> mcp_item list \<Rightarrow> error + out_item list" where
  "mcpExecute P env clock continueOnFail items =
     mcpExecuteFrom P env clock continueOnFail 0 items []"

text \<open>
  Items for the examples, with a transport that is neither \<^verbatim>\<open>sse\<close> nor \<^verbatim>\<open>http\<close>: one
  that lists the tools, one that calls a tool with a parameter text that is no JSON.
  The environment of the examples answers every request with an empty result.
\<close>

definition unknown_transport_item :: mcp_item where
  "unknown_transport_item =
     \<lparr> connectionType = ''websocket'', operation = ''tools/list'', toolName = [],
       parameters = ''{}'', resourceUri = [], promptName = [],
       sseCredentials = Inl ''no credentials'', httpCredentials = Inl ''no credentials'' \<rparr>"

definition malformed_call_item :: mcp_item where
  "malformed_call_item =
     unknown_transport_item \<lparr> operation := ''tools/call'', toolName := ''search'', parameters := ''{'' \<rparr>"

definition quiet_env :: mcp_env where
  "quiet_env = \<lparr> sse = (\<lambda>url request hdrs timeout. Inr []), http = (\<lambda>request timeout. Inr (JObj [])) \<rparr>"


text \<open>A clock for the examples.\<close>

definition fixed_clock :: "nat \<Rightarrow> int" where
  "fixed_clock i = 1700000000000"


section \<open>The MCP node: \<^verbatim>\<open>handleSSERequest\<close>\<close>

text \<open>
  The promise of \<^verbatim>\<open>handleSSERequest\<close> is settled by callbacks: the response callback
  that sets the timer and registers the stream handlers, the handlers of \<^verbatim>\<open>data\<close>,
  \<^verbatim>\<open>end\<close> and \<^verbatim>\<open>error\<close> on the response, the handler of \<^verbatim>\<open>error\<close> on the request,
  and the timer. The model is the state these callbacks share and one function for each.
  \<open>timer\<close> is the pending \<^verbatim>\<open>setTimeout\<close> with its delay (\<open>None\<close> before it is
  set, once cleared and once fired); \<open>promise\<close> is how the promise was settled.
\<close>

datatype outcome = Resolved "json list" | Rejected string

record sse_state =
  sseData :: "json list"
  buffer :: string
  isResolved :: bool
  responded :: bool
  timer :: "int option"
  destroyed :: bool
  promise :: "outcome option"

definition sse_initial :: sse_state where
  "sse_initial =
     \<lparr> sseData = [], buffer = [], isResolved = False, responded = False, timer = None,
       destroyed = False, promise = None \<rparr>"

text \<open>\<^verbatim>\<open>resolve\<close> and \<^verbatim>\<open>reject\<close> settle a promise once; later calls change nothing.\<close>

definition settle :: "outcome \<Rightarrow> sse_state \<Rightarrow> sse_state" where
  "settle out s = (case promise s of None \<Rightarrow> s\<lparr>promise := Some out\<rparr> | Some done \<Rightarrow> s)"

text \<open>
  \<^verbatim>\<open>clearTimeout(timeoutId); if (!isResolved) { isResolved = true; req.destroy();\<close>
  \<^verbatim>\<open>resolve(sseData); }\<close>
\<close>

definition finish :: "sse_state \<Rightarrow> sse_state" where
  "finish s =
     (let s1 = s\<lparr>timer := None\<rparr>
      in if \<not> isResolved s1 then
           settle (Resolved (sseData s1)) (s1\<lparr>isResolved := True, destroyed := True\<rparr>)
         else s1)"

text \<open>
  \<^verbatim>\<open>jsonData.result !== undefined || jsonData.error !== undefined\<close>; on \<^verbatim>\<open>null\<close> the
  read throws inside the \<^verbatim>\<open>try\<close>, after the push, and the message counts as not
  terminal.
\<close>

definition terminalMessage :: "json \<Rightarrow> bool" where
  "terminalMessage jsonData =
     (jsonData \<noteq> JNull \<and>
      (own_get jsonData ''result'' \<noteq> None \<or> own_get jsonData ''error'' \<noteq> None))"

text \<open>
  The loop over the lines of one event in the \<^verbatim>\<open>data\<close> handler. The flag tells that
  the handler has returned.
\<close>

fun dataLines :: "platform \<Rightarrow> string list \<Rightarrow> sse_state \<Rightarrow> sse_state \<times> bool" where
  "dataLines P [] s = (s, False)"
| "dataLines P (line # lines) s =
     (if startsWith line ''data: '' then
        (let dataContent = trim (drop 6 line)
         in if dataContent = ''[DONE]'' then (finish s, True)
            else (case JSON_parse P dataContent of
                    None \<Rightarrow> dataLines P lines s
                  | Some jsonData \<Rightarrow>
                      (let s1 = s\<lparr>sseData := sseData s @ [jsonData]\<rparr>
                       in if terminalMessage jsonData then (finish s1, True)
                          else dataLines P lines s1)))
      else dataLines P lines s)"

text \<open>The loop over the complete events.\<close>

fun dataEvents :: "platform \<Rightarrow> string list \<Rightarrow> sse_state \<Rightarrow> sse_state \<times> bool" where
  "dataEvents P [] s = (s, False)"
| "dataEvents P (event # events) s =
     (if trim event = [] then dataEvents P events s
      else (case dataLines P (split event [CHR 0x0A]) s of
              (s1, True) \<Rightarrow> (s1, True)
            | (s1, False) \<Rightarrow> dataEvents P events s1))"

text \<open>\<^verbatim>\<open>events.pop() || ''\<close>\<close>

fun popped :: "string list \<Rightarrow> string" where
  "popped [] = []"
| "popped (e # es) = last (e # es)"

definition onData :: "platform \<Rightarrow> string \<Rightarrow> sse_state \<Rightarrow> sse_state" where
  "onData P chunk s =
     (let events = split (buffer s @ chunk) [CHR 0x0A, CHR 0x0A]
      in fst (dataEvents P (butlast events) (s\<lparr>buffer := popped events\<rparr>)))"

text \<open>The lines left in the buffer when the stream ends.\<close>

fun endLines :: "platform \<Rightarrow> string list \<Rightarrow> sse_state \<Rightarrow> sse_state" where
  "endLines P [] s = s"
| "endLines P (line # lines) s =
     (if startsWith line ''data: '' then
        (case JSON_parse P (trim (drop 6 line)) of
           None \<Rightarrow> endLines P lines s
         | Some jsonData \<Rightarrow> endLines P lines (s\<lparr>sseData := sseData s @ [jsonData]\<rparr>))
      else endLines P lines s)"

definition onEnd :: "platform \<Rightarrow> sse_state \<Rightarrow> sse_state" where
  "onEnd P s =
     (let s1 = s\<lparr>timer := None\<rparr>
      in if \<not> isResolved s1 then
           (let s2 = s1\<lparr>isResolved := True\<rparr>;
                s3 = (if trim (buffer s2) \<noteq> []
                      then endLines P (split (buffer s2) [CHR 0x0A]) s2 else s2)
            in settle (Resolved (sseData s3)) s3)
         else s1)"

definition onError :: "string \<Rightarrow> string \<Rightarrow> sse_state \<Rightarrow> sse_state" where
  "onError prefix msg s =
     (let s1 = s\<lparr>timer := None\<rparr>
      in if \<not> isResolved s1 then settle (Rejected (prefix @ msg)) (s1\<lparr>isResolved := True\<rparr>)
         else s1)"

text \<open>The timer callback; the timer that fired is no longer pending.\<close>

definition onTimeout :: "sse_state \<Rightarrow> sse_state" where
  "onTimeout s =
     (let s1 = s\<lparr>timer := None\<rparr>
      in if \<not> isResolved s1 then
           settle (Resolved (if sseData s1 \<noteq> [] then sseData s1
                             else [JObj [(''error'', JStr ''SSE timeout - no data received'')]]))
             (s1\<lparr>isResolved := True, destroyed := True\<rparr>)
         else s1)"

text \<open>
  What the event loop can deliver. The stream handlers exist once the response callback
  has run; the timer callback runs only while the timer is pending.
\<close>

datatype sse_event =
    Response
  | Data string
  | End
  | ResponseError string
  | RequestError string
  | Timeout

fun step :: "platform \<Rightarrow> int \<Rightarrow> sse_state \<Rightarrow> sse_event \<Rightarrow> sse_state" where
  "step P timeout s Response = s\<lparr>responded := True, timer := Some timeout\<rparr>"
| "step P timeout s (Data chunk) = (if responded s then onData P chunk s else s)"
| "step P timeout s End = (if responded s then onEnd P s else s)"
| "step P timeout s (ResponseError msg) =
     (if responded s then onError ''SSE response error: '' msg s else s)"
| "step P timeout s (RequestError msg) = onError ''SSE request error: '' msg s"
| "step P timeout s Timeout = (if timer s \<noteq> None then onTimeout s else s)"

definition run :: "platform \<Rightarrow> int \<Rightarrow> sse_event list \<Rightarrow> sse_state" where
  "run P timeout events = foldl (step P timeout) sse_initial events"

text \<open>
  The terminal markers: a line \<^verbatim>\<open>data: \<close> whose trimmed payload is \<^verbatim>\<open>[DONE]\<close> or parses
  to a JSON value with a \<^verbatim>\<open>result\<close> or an \<^verbatim>\<open>error\<close> key, in a complete event (one
  followed by a blank line) that is not blank.
\<close>

definition terminalLine :: "platform \<Rightarrow> string \<Rightarrow> bool" where
  "terminalLine P line =
     (startsWith line ''data: '' \<and>
      (trim (drop 6 line) = ''[DONE]'' \<or>
       (case JSON_parse P (trim (drop 6 line)) of
          None \<Rightarrow> False
        | Some jsonData \<Rightarrow> terminalMessage jsonData)))"

definition terminalEvent :: "platform \<Rightarrow> string \<Rightarrow> bool" where
  "terminalEvent P event =
     (trim event \<noteq> [] \<and> list_ex (terminalLine P) (split event [CHR 0x0A]))"

definition terminalChunk :: "platform \<Rightarrow> string \<Rightarrow> string \<Rightarrow> bool" where
  "terminalChunk P buffered chunk =
     list_ex (terminalEvent P) (butlast (split (buffered @ chunk) [CHR 0x0A, CHR 0x0A]))"

text \<open>
  The invariant of the session once the response has arrived: the flag \<^verbatim>\<open>isResolved\<close>
  tells whether the promise is settled, and while it is not, the timer is pending with
  the configured delay.
\<close>

definition sse_inv :: "int \<Rightarrow> sse_state \<Rightarrow> bool" where
  "sse_inv timeout s =
     (responded s \<and> (isResolved s \<longleftrightarrow> promise s \<noteq> None) \<and>
      (\<not> isResolved s \<longrightarrow> timer s = Some timeout))"

text \<open>
  A stream for the examples: after the response, one event that is no terminal marker,
  and then nothing. \<open>result_chunk\<close> is a JSON-RPC response that could follow.
\<close>

definition progress_chunk :: string where
  \<open>progress_chunk = ''data: {"progress":1}'' @ [CHR 0x0A, CHR 0x0A]\<close>

definition result_chunk :: string where
  \<open>result_chunk = ''data: {"result":{"ok":true}}'' @ [CHR 0x0A, CHR 0x0A]\<close>

definition stalled_stream :: "sse_event list" where
  "stalled_stream = [Response, Data progress_chunk]"

text \<open>
  The text of the stream received so far: the chunks of the \<^verbatim>\<open>data\<close> events, in order.
\<close>

fun received :: "sse_event list \<Rightarrow> string" where
  "received [] = []"
| "received (Data chunk # events) = chunk @ received events"
| "received (ev # events) = received events"

text \<open>
  A stream text holds a terminal marker when one of its complete events (those followed
  by a blank line, two line feeds in a row) is a terminal event.
\<close>

definition terminalStream :: "platform \<Rightarrow> string \<Rightarrow> bool" where
  "terminalStream P text =
     list_ex (terminalEvent P) (butlast (split text [CHR 0x0A, CHR 0x0A]))"

text \<open>
  The relation between the session and the stream text received so far: the buffer is
  the unfinished last piece of the text, and a terminal marker in the text means that
  the promise is settled.
\<close>

definition stream_inv :: "platform \<Rightarrow> sse_state \<Rightarrow> string \<Rightarrow> bool" where
  "stream_inv P s got =
     (buffer s = last (split got [CHR 0x0A, CHR 0x0A]) \<and>
      (terminalStream P got \<longrightarrow> promise s \<noteq> None))"

text \<open>
  More streams for the examples. \<open>first_half\<close> and \<open>second_half\<close> are two chunks
  that cut a JSON-RPC response in the middle of its line. \<open>compact_done_chunk\<close> is the
  end marker written without the space after the colon, \<open>crlf_done_chunk\<close> the end
  marker in an event framed with carriage return and line feed.
\<close>

definition first_half :: string where
  \<open>first_half = progress_chunk @ ''data: {"res''\<close>

definition second_half :: string where
  \<open>second_half = ''ult":{"ok":true}}'' @ [CHR 0x0A, CHR 0x0A]\<close>

definition compact_done_chunk :: string where
  "compact_done_chunk = ''data:[DONE]'' @ [CHR 0x0A, CHR 0x0A]"

definition crlf_done_chunk :: string where
  "crlf_done_chunk = ''data: [DONE]'' @ [CHR 0x0D, CHR 0x0A, CHR 0x0D, CHR 0x0A]"

text \<open>
  For the examples of the descriptor cache: static data with no entry, an upstream that
  answers with the JSON value \<^verbatim>\<open>null\<close>, and an upstream whose request is rejected.
\<close>

definition fresh_world :: world where
  "fresh_world = \<lparr> staticData = Map.empty, issued = [] \<rparr>"

definition null_answer :: "http_request \<Rightarrow> error + json" where
  "null_answer rq = Inr JNull"

definition failing_answer :: "http_request \<Rightarrow> error + json" where
  "failing_answer rq = Inl (HostError ''connect ECONNREFUSED'')"

section \<open>The SuperiorAPIs node: the encoded selection of \<^verbatim>\<open>getApiList\<close>\<close>





section \<open>Evaluating the examples\<close>

lemma ascii_runtime_fields:
  "JSON_parse ascii_runtime = parse"
  "JSON_stringify ascii_runtime = (\<lambda>n v. stringify (min n 10) 0 v)"
  "toBase64 ascii_runtime = (\<lambda>s. b64_encode (utf8_bytes s))"
  "fromBase64 ascii_runtime = (\<lambda>s. utf8_text (b64_bytes (sextets s)))"
  "toLowerCase ascii_runtime = map ascii_lower"
  "toUpperCase ascii_runtime = map ascii_upper"
  by (simp_all add: ascii_runtime_def)

lemmas request_defs =
  buildRequest_def andThen_def credentialHeaders_def userHeaders_def userQuery_def
  mappedParameters_def mappedField_def requestBody_def contentTypeHeader_def
  startsWith_def js_set_def assign_own_def Let_def

lemma weather_text:
  \<open>fromBase64 ascii_runtime weather_selection =
     ''{"id":7,"interfaceId":"3b52426bfe33","version":"1","name":"Weather",'' @
     ''"interface":{"paths":{"/weather":{"post":{"requestBody":{"content":'' @
     ''{"application/json":{}}}}}}}}''\<close>
  by (simp add: ascii_runtime_fields weather_selection_def sextet_def, code_simp)

lemma weather_parsed:
  \<open>parse
     (''{"id":7,"interfaceId":"3b52426bfe33","version":"1","name":"Weather",'' @
      ''"interface":{"paths":{"/weather":{"post":{"requestBody":{"content":'' @
      ''{"application/json":{}}}}}}}}'') =
   Some (JObj [(''id'', JNum 7), (''interfaceId'', JStr ''3b52426bfe33''),
               (''version'', JStr ''1''), (''name'', JStr ''Weather''),
               (''interface'', JObj [(''paths'', JObj [(''/weather'', JObj [(''post'',
                  JObj [(''requestBody'', JObj [(''content'',
                    JObj [(''application/json'', JObj [])])])])])])])])\<close>
  by code_simp

lemma weather_decoded:
  "decodeSelection ascii_runtime weather_selection =
   Inr (JObj [(''id'', JNum 7), (''interfaceId'', JStr ''3b52426bfe33''),
              (''version'', JStr ''1''), (''name'', JStr ''Weather''),
              (''interface'', JObj [(''paths'', JObj [(''/weather'', JObj [(''post'',
                 JObj [(''requestBody'', JObj [(''content'',
                   JObj [(''application/json'', JObj [])])])])])])])])"
  by (simp only: decodeSelection_def weather_text)
     (simp only: ascii_runtime_fields weather_parsed option.case)

lemma attack_parsed:
  \<open>parse ''{"token":"c1","Token":"c2"}'' =
     Some (JObj [(''token'', JStr ''c1''), (''Token'', JStr ''c2'')])\<close>
  \<open>parse ''{"token":"u1","TOKEN":"u2"}'' =
     Some (JObj [(''token'', JStr ''u1''), (''TOKEN'', JStr ''u2'')])\<close>
  by code_simp+

lemma token_attack_request:
  "\<not> isl (buildRequest ascii_runtime token_attack_item)"
  by (simp add: request_defs token_attack_item_def weather_item_def weather_decoded
        ascii_runtime_fields attack_parsed weather_selection_def, code_simp)

section \<open>Properties of the descriptor cache\<close>

lemma cacheKey_neq_cacheTimeKey: "cacheKey tok \<noteq> cacheTimeKey tok"
  by (simp add: cacheTimeKey_def)

lemma cacheKey_prefix_cong:
  "take 20 tok' = take 20 tok \<Longrightarrow> cacheKey tok' = cacheKey tok"
  by (simp add: cacheKey_def)

lemma cacheTimeKey_prefix_cong:
  "take 20 tok' = take 20 tok \<Longrightarrow> cacheTimeKey tok' = cacheTimeKey tok"
  by (simp add: cacheTimeKey_def cacheKey_def)

lemma cache_valid_prefix_cong:
  assumes "take 20 tok' = take 20 tok"
  shows "cache_valid P now tok' w = cache_valid P now tok w"
  by (simp add: cache_valid_def cacheKey_prefix_cong [OF assms] cacheTimeKey_prefix_cong [OF assms])

lemma cache_valid_imp_stored:
  "cache_valid P now tok w \<Longrightarrow> \<exists>c. staticData w (cacheKey tok) = Some c"
  by (cases "staticData w (cacheKey tok)") (simp_all add: cache_valid_def)

lemma getPluginListCached_miss:
  assumes "\<not> cache_valid P now tok w"
  shows "getPluginListCached P net now tok w = fetchPluginList net now tok w"
  using assms by (simp add: getPluginListCached_def split: option.splits)

lemma getPluginListCached_hit:
  assumes "cache_valid P now tok w" and "staticData w (cacheKey tok) = Some r"
  shows "getPluginListCached P net now tok w = (Inr r, w)"
  using assms by (simp add: getPluginListCached_def)

lemma fetchPluginList_issued:
  "issued (snd (fetchPluginList net now tok w)) = issued w @ [plugin_list_request tok]"
  by (simp add: fetchPluginList_def Let_def split: sum.splits)

lemma fetchPluginList_ok:
  assumes "net (plugin_list_request tok) = Inr r"
  shows "fetchPluginList net now tok w =
           (Inr r,
            \<lparr>staticData = (staticData w)(cacheKey tok \<mapsto> r, cacheTimeKey tok \<mapsto> JNum now),
             issued = issued w @ [plugin_list_request tok]\<rparr>)"
  using assms by (simp add: fetchPluginList_def Let_def)

lemma cache_valid_after_fetch:
  assumes "staticData w (cacheKey tok) = Some r"
      and "staticData w (cacheTimeKey tok) = Some (JNum t)"
  shows "cache_valid P now tok w \<longleftrightarrow> truthy r \<and> t \<noteq> 0 \<and> now - t < CACHE_DURATION"
  using assms by (simp add: cache_valid_def)

text \<open>
  C4, as amended. The entry of a token is stored under \<^verbatim>\<open>plugins_list_\<close> followed by
  the first 20 characters of the token, with its fetch time under that key followed by
  \<^verbatim>\<open>_timestamp\<close>. Let a first call at time \<open>t0\<close> find no valid entry, let its upstream
  call succeed with a truthy response \<open>r\<close> (the catalog object), and let the clock value
  \<open>t0\<close> be nonzero. A second call at \<open>t1\<close> less than 5 minutes after \<open>t0\<close>, with any
  token that has the same first 20 characters, returns \<open>r\<close> and leaves the world as it
  is: no request is issued, so the two calls issued exactly one. A later call at \<open>t2\<close>,
  5 minutes or more after \<open>t0\<close>, issues a second request, and when that request succeeds
  its response and \<open>t2\<close> overwrite the entry.
\<close>

theorem descriptor_cache_five_minute_window:
  assumes first_miss: "\<not> cache_valid P t0 tok w0"
      and fetched: "net0 (plugin_list_request tok) = Inr r"
      and truthy_r: "truthy r"
      and clock: "t0 \<noteq> 0"
      and same_prefix: "take 20 tok' = take 20 tok"
      and within: "t1 - t0 < CACHE_DURATION"
      and later: "CACHE_DURATION \<le> t2 - t0"
  shows "\<exists>w1.
           getPluginListCached P net0 t0 tok w0 = (Inr r, w1) \<and>
           staticData w1 (''plugins_list_'' @ take 20 tok) = Some r \<and>
           staticData w1 (''plugins_list_'' @ take 20 tok @ ''_timestamp'') = Some (JNum t0) \<and>
           issued w1 = issued w0 @ [plugin_list_request tok] \<and>
           getPluginListCached P net1 t1 tok' w1 = (Inr r, w1) \<and>
           issued (snd (getPluginListCached P net2 t2 tok w1)) =
             issued w0 @ [plugin_list_request tok, plugin_list_request tok] \<and>
           (\<forall>r2. net2 (plugin_list_request tok) = Inr r2 \<longrightarrow>
              fst (getPluginListCached P net2 t2 tok w1) = Inr r2 \<and>
              staticData (snd (getPluginListCached P net2 t2 tok w1))
                (''plugins_list_'' @ take 20 tok) = Some r2 \<and>
              staticData (snd (getPluginListCached P net2 t2 tok w1))
                (''plugins_list_'' @ take 20 tok @ ''_timestamp'') = Some (JNum t2))"
proof -
  define w1 where
    "w1 = \<lparr>staticData = (staticData w0)(cacheKey tok \<mapsto> r, cacheTimeKey tok \<mapsto> JNum t0),
            issued = issued w0 @ [plugin_list_request tok]\<rparr>"
  have call1: "getPluginListCached P net0 t0 tok w0 = (Inr r, w1)"
    using first_miss fetched by (simp add: getPluginListCached_miss fetchPluginList_ok w1_def)
  have key1: "staticData w1 (cacheKey tok) = Some r"
    using cacheKey_neq_cacheTimeKey [of tok] by (simp add: w1_def)
  have time1: "staticData w1 (cacheTimeKey tok) = Some (JNum t0)"
    by (simp add: w1_def)
  have iss1: "issued w1 = issued w0 @ [plugin_list_request tok]"
    by (simp add: w1_def)
  have valid1: "cache_valid P t1 tok w1"
    using truthy_r clock within by (simp add: cache_valid_after_fetch [OF key1 time1])
  have key1': "staticData w1 (cacheKey tok') = Some r"
    using key1 by (simp add: cacheKey_prefix_cong [OF same_prefix])
  have call2: "getPluginListCached P net1 t1 tok' w1 = (Inr r, w1)"
    using valid1 key1'
    by (simp add: getPluginListCached_hit cache_valid_prefix_cong [OF same_prefix])
  have stale: "\<not> cache_valid P t2 tok w1"
    using later by (simp add: cache_valid_after_fetch [OF key1 time1])
  have call3: "getPluginListCached P net2 t2 tok w1 = fetchPluginList net2 t2 tok w1"
    using stale by (rule getPluginListCached_miss)
  have iss3: "issued (snd (getPluginListCached P net2 t2 tok w1)) =
                issued w0 @ [plugin_list_request tok, plugin_list_request tok]"
    by (simp add: call3 fetchPluginList_issued iss1)
  have over: "\<forall>r2. net2 (plugin_list_request tok) = Inr r2 \<longrightarrow>
              fst (getPluginListCached P net2 t2 tok w1) = Inr r2 \<and>
              staticData (snd (getPluginListCached P net2 t2 tok w1)) (cacheKey tok) = Some r2 \<and>
              staticData (snd (getPluginListCached P net2 t2 tok w1)) (cacheTimeKey tok)
                = Some (JNum t2)"
    using cacheKey_neq_cacheTimeKey [of tok] by (simp add: call3 fetchPluginList_ok)
  show ?thesis
    using call1 key1 time1 iss1 call2 iss3 over
    by (intro exI [of _ w1]) (simp add: cacheKey_def cacheTimeKey_def)
qed

theorem descriptor_cache_five_minute_window_witness:
  "\<not> cache_valid ascii_runtime 1000 ''tok-1'' \<lparr>staticData = Map.empty, issued = []\<rparr> \<and>
   truthy (JObj [(''plugins'', JArr [])]) \<and> (1000::int) \<noteq> 0 \<and>
   take 20 ''tok-1'' = take 20 ''tok-1'' \<and>
   (2000::int) - 1000 < CACHE_DURATION \<and> CACHE_DURATION \<le> (301000::int) - 1000 \<and>
   (\<exists>w1.
      getPluginListCached ascii_runtime (\<lambda>q. Inr (JObj [(''plugins'', JArr [])])) 1000 ''tok-1''
          \<lparr>staticData = Map.empty, issued = []\<rparr> = (Inr (JObj [(''plugins'', JArr [])]), w1) \<and>
      issued w1 = [plugin_list_request ''tok-1''] \<and>
      getPluginListCached ascii_runtime (\<lambda>q. Inl (HostError ''down'')) 2000 ''tok-1'' w1
        = (Inr (JObj [(''plugins'', JArr [])]), w1) \<and>
      issued (snd (getPluginListCached ascii_runtime (\<lambda>q. Inr (JObj [])) 301000 ''tok-1'' w1))
        = [plugin_list_request ''tok-1'', plugin_list_request ''tok-1''] \<and>
      staticData (snd (getPluginListCached ascii_runtime (\<lambda>q. Inr (JObj [])) 301000 ''tok-1'' w1))
        ''plugins_list_tok-1'' = Some (JObj []))"
proof -
  let ?w0 = "\<lparr>staticData = Map.empty, issued = []\<rparr>"
  let ?r = "JObj [(''plugins'', JArr [])]"
  have h1: "\<not> cache_valid ascii_runtime 1000 ''tok-1'' ?w0"
    by (simp add: cache_valid_def)
  have h2: "(\<lambda>q. Inr ?r :: error + json) (plugin_list_request ''tok-1'') = Inr ?r"
    by simp
  have h3: "truthy ?r" by simp
  have h4: "(1000::int) \<noteq> 0" by simp
  have h5: "take 20 ''tok-1'' = take 20 ''tok-1''" by simp
  have h6: "(2000::int) - 1000 < CACHE_DURATION" by (simp add: CACHE_DURATION_def)
  have h7: "CACHE_DURATION \<le> (301000::int) - 1000" by (simp add: CACHE_DURATION_def)
  from descriptor_cache_five_minute_window
         [OF h1 h2 h3 h4 h5 h6 h7,
          of "\<lambda>q. Inl (HostError ''down'')" "\<lambda>q. Inr (JObj [])"]
  obtain w1 where
    "getPluginListCached ascii_runtime (\<lambda>q. Inr ?r) 1000 ''tok-1'' ?w0 = (Inr ?r, w1)"
    "issued w1 = issued ?w0 @ [plugin_list_request ''tok-1'']"
    "getPluginListCached ascii_runtime (\<lambda>q. Inl (HostError ''down'')) 2000 ''tok-1'' w1
       = (Inr ?r, w1)"
    "issued (snd (getPluginListCached ascii_runtime (\<lambda>q. Inr (JObj [])) 301000 ''tok-1'' w1))
       = issued ?w0 @ [plugin_list_request ''tok-1'', plugin_list_request ''tok-1'']"
    "staticData (snd (getPluginListCached ascii_runtime (\<lambda>q. Inr (JObj [])) 301000 ''tok-1'' w1))
       (''plugins_list_'' @ take 20 ''tok-1'') = Some (JObj [])"
    by auto
  then show ?thesis
    using h1 h3 h6 h7 by (intro conjI exI [of _ w1]) simp_all
qed

text \<open>
  Without the conditions on the first call the claim fails: the validity test reads the
  stored response for its truth value, and a rejected upstream call stores nothing. With
  an upstream that answers \<^verbatim>\<open>null\<close>, and with one whose request is rejected, two calls
  one second apart on static data that was empty issue two requests.
\<close>

theorem descriptor_cache_five_minute_window_counterexample:
  "(2000::int) - 1000 < CACHE_DURATION \<and>
   fst (getPluginListCached ascii_runtime null_answer 1000 ''tok-1'' fresh_world) = Inr JNull \<and>
   issued (snd (getPluginListCached ascii_runtime null_answer 2000 ''tok-1''
                  (snd (getPluginListCached ascii_runtime null_answer 1000 ''tok-1'' fresh_world))))
     = [plugin_list_request ''tok-1'', plugin_list_request ''tok-1''] \<and>
   fst (getPluginListCached ascii_runtime failing_answer 1000 ''tok-1'' fresh_world)
     = Inl (HostError ''connect ECONNREFUSED'') \<and>
   issued (snd (getPluginListCached ascii_runtime failing_answer 2000 ''tok-1''
                  (snd (getPluginListCached ascii_runtime failing_answer 1000 ''tok-1'' fresh_world))))
     = [plugin_list_request ''tok-1'', plugin_list_request ''tok-1'']"
  by (simp add: CACHE_DURATION_def getPluginListCached_def fetchPluginList_def cache_valid_def
        fresh_world_def null_answer_def failing_answer_def cacheKey_def cacheTimeKey_def Let_def)

section \<open>Properties of the request assembly\<close>

lemma andThen_Inr: "andThen m f = Inr y \<longleftrightarrow> (\<exists>x. m = Inr x \<and> f x = Inr y)"
  by (cases m) (simp_all add: andThen_def)

lemma andThen_Inl: "andThen m f = Inl e \<longleftrightarrow> m = Inl e \<or> (\<exists>x. m = Inr x \<and> f x = Inl e)"
  by (cases m) (simp_all add: andThen_def)

lemma withoutToken_get:
  "withoutToken h = Inr m \<Longrightarrow> m k = (if k = ''token'' then None else map_of (own_props h) k)"
  by (cases h) auto

lemma withoutToken_add:
  "withoutToken h = Inr m \<Longrightarrow>
     (hdrs ++ m) k = (if k = ''token'' then hdrs k else (hdrs ++ map_of (own_props h)) k)"
  by (simp add: map_add_def withoutToken_get)

lemma credentialHeaders_get:
  assumes "credentialHeaders P it hdrs = Inr h'"
  shows "h' k = (if k = ''token'' then hdrs k else (hdrs ++ credentialHeaderEntries P it) k)"
proof (cases "credentials it")
  case (Inl msg)
  with assms show ?thesis by (simp add: credentialHeaders_def)
next
  case (Inr credText)
  show ?thesis
  proof (cases "credText = []")
    case True
    with Inr assms show ?thesis
      by (simp add: credentialHeaders_def credentialHeaderEntries_def andThen_def)
  next
    case False
    show ?thesis
    proof (cases "JSON_parse P credText")
      case None
      with Inr False assms show ?thesis by (simp add: credentialHeaders_def andThen_def)
    next
      case (Some credHeaders)
      with Inr False assms obtain m where m: "withoutToken credHeaders = Inr m" and h': "h' = hdrs ++ m"
        by (auto simp: credentialHeaders_def andThen_def split: sum.splits)
      show ?thesis
        using Inr False Some withoutToken_add [OF m, of hdrs k]
        by (simp add: h' credentialHeaderEntries_def)
    qed
  qed
qed

lemma userHeaders_get:
  assumes "userHeaders P it hdrs = Inr h'"
  shows "h' k = (if k = ''token'' then hdrs k else (hdrs ++ userHeaderEntries P it) k)"
proof (cases "sendHeaders it")
  case False
  with assms show ?thesis by (simp add: userHeaders_def userHeaderEntries_def)
next
  case True
  show ?thesis
  proof (cases "specifyHeaders it = ''keypair''")
    case keypair: True
    show ?thesis
    proof (cases "headers it")
      case None
      with True keypair assms show ?thesis by (simp add: userHeaders_def userHeaderEntries_def)
    next
      case (Some rows)
      with True keypair assms have "h' = hdrs ++ (rowsObject rows)(''token'' := None)"
        by (simp add: userHeaders_def)
      with True keypair Some show ?thesis
        by (simp add: userHeaderEntries_def map_add_def)
    qed
  next
    case json: False
    show ?thesis
    proof (cases "JSON_parse P (headersJson it)")
      case None
      with True json assms show ?thesis by (simp add: userHeaders_def)
    next
      case (Some userHdrs)
      with True json assms obtain m where m: "withoutToken userHdrs = Inr m" and h': "h' = hdrs ++ m"
        by (auto simp: userHeaders_def andThen_def split: sum.splits)
      show ?thesis
        using True json Some withoutToken_add [OF m, of hdrs k]
        by (simp add: h' userHeaderEntries_def)
    qed
  qed
qed

lemma replace_prefix: "startsWith s p \<Longrightarrow> replace s p r = r @ drop (length p) s"
  by (cases s) (auto simp: startsWith_def)

lemma startsWith_header_not_query: "startsWith key ''header_'' \<Longrightarrow> \<not> startsWith key ''query_''"
  by (auto simp: startsWith_def take_Suc_conv_app_nth dest!: arg_cong [where f = hd])


lemma js_set_get:
  "js_set k' v m k = (if k = k' \<and> \<not> (k' = ''__proto__'' \<and> m k' = None) then Some v else m k)"
  by (auto simp: js_set_def)

lemma mappedField_headers:
  assumes "mappedField (key, v) (q, h) = Inr (q', h')" and "k \<noteq> ''token''" and "k \<noteq> ''__proto__''"
  shows "h' k = (h ++ (if startsWith key ''header_'' then [drop 7 key \<mapsto> v] else Map.empty)) k"
proof (cases "startsWith key ''header_''")
  case True
  then have nq: "\<not> startsWith key ''query_''" by (rule startsWith_header_not_query)
  have rp: "replace key ''header_'' [] = drop 7 key"
    using replace_prefix [OF True, of "[]"] by (simp add: eval_nat_numeral)
  show ?thesis
    using assms True nq
    by (auto simp: mappedField_def rp Let_def js_set_get map_add_def split: if_splits)
next
  case False
  with assms show ?thesis
    by (auto simp: mappedField_def andThen_Inr split: if_splits)
qed

lemma mappedField_token:
  assumes "mappedField (key, v) (q, h) = Inr (q', h')"
  shows "h' ''token'' = h ''token''"
proof (cases "startsWith key ''header_''")
  case True
  then have nq: "\<not> startsWith key ''query_''" by (rule startsWith_header_not_query)
  show ?thesis
    using assms True nq
    by (auto simp: mappedField_def Let_def js_set_get split: if_splits)
next
  case False
  with assms show ?thesis
    by (auto simp: mappedField_def andThen_Inr split: if_splits)
qed

lemma mappedFields_headers:
  assumes "mappedFields kvs (q, h) = Inr (q', h')" and "k \<noteq> ''token''" and "k \<noteq> ''__proto__''"
  shows "h' k = (h ++ headerFields kvs) k"
  using assms
proof (induction kvs arbitrary: q h)
  case Nil
  then show ?case by simp
next
  case (Cons kv kvs)
  obtain key v where kv: "kv = (key, v)" by (cases kv)
  from Cons.prems(1) obtain q1 h1 where
    step: "mappedField (key, v) (q, h) = Inr (q1, h1)" and rest: "mappedFields kvs (q1, h1) = Inr (q', h')"
    by (auto simp: kv andThen_Inr)
  have "h' k = (h1 ++ headerFields kvs) k"
    using Cons.IH [OF rest Cons.prems(2,3)] .
  moreover have "h1 k = (h ++ (if startsWith key ''header_'' then [drop 7 key \<mapsto> v] else Map.empty)) k"
    using mappedField_headers [OF step Cons.prems(2,3)] .
  ultimately show ?case
    by (simp add: kv map_add_def split: option.splits)
qed

lemma mappedFields_token:
  assumes "mappedFields kvs (q, h) = Inr (q', h')"
  shows "h' ''token'' = h ''token''"
  using assms
proof (induction kvs arbitrary: q h)
  case Nil
  then show ?case by simp
next
  case (Cons kv kvs)
  obtain key v where kv: "kv = (key, v)" by (cases kv)
  from Cons.prems obtain q1 h1 where
    step: "mappedField (key, v) (q, h) = Inr (q1, h1)" and rest: "mappedFields kvs (q1, h1) = Inr (q', h')"
    by (auto simp: kv andThen_Inr)
  show ?case
    using Cons.IH [OF rest] mappedField_token [OF step] by simp
qed

lemma mappedParameters_headers:
  assumes "mappedParameters it (q, h) = Inr (q', h')" and "k \<noteq> ''token''" and "k \<noteq> ''__proto__''"
  shows "h' k = (h ++ mappedHeaderEntries it) k"
  using assms
  by (auto simp: mappedParameters_def mappedHeaderEntries_def mappedFields_headers
        split: option.splits if_splits)

lemma mappedParameters_token:
  assumes "mappedParameters it (q, h) = Inr (q', h')"
  shows "h' ''token'' = h ''token''"
  using assms
  by (auto simp: mappedParameters_def mappedFields_token split: option.splits if_splits)

lemma contentTypeHeader_get:
  assumes "contentTypeHeader P pathMethods m h = Inr h'" and "k \<noteq> ''Content-Type''"
  shows "h' k = h k"
  using assms
  by (auto simp: contentTypeHeader_def andThen_Inr Let_def split: if_splits option.splits)

lemma buildRequest_steps:
  assumes "buildRequest P it = Inr rq"
  obtains pathMethods m hdrs1 hdrs2 q q' hdrs3 where
    "token it \<noteq> []"
    "credentialHeaders P it [''token'' \<mapsto> JStr (token it)] = Inr hdrs1"
    "userHeaders P it hdrs1 = Inr hdrs2"
    "userQuery P it = Inr q"
    "mappedParameters it (q, hdrs2) = Inr (q', hdrs3)"
    "requestBody P it = Inr (req_body rq)"
    "contentTypeHeader P pathMethods m hdrs3 = Inr (req_headers rq)"
    "req_qs rq = q'"
  using assms
  by (auto simp: buildRequest_def andThen_Inr Let_def split: if_splits prod.splits)


lemma tokenCaseVariant_other:
  assumes "tokenCaseVariant k"
  shows "k \<noteq> ''token''" and "k \<noteq> ''Content-Type''" and "k \<noteq> ''__proto__''"
proof -
  from assms have "length (map ascii_lower k) = length ''token''"
    by (simp only: tokenCaseVariant_def)
  then have len: "length k = 5" by simp
  show "k \<noteq> ''token''" using assms by (simp add: tokenCaseVariant_def)
  show "k \<noteq> ''Content-Type''" using len by auto
  show "k \<noteq> ''__proto__''" using len by auto
qed

lemma buildRequest_token:
  assumes "buildRequest P it = Inr rq"
  shows "req_headers rq ''token'' = Some (JStr (token it))"
proof -
  from assms obtain pathMethods m hdrs1 hdrs2 q q' hdrs3 where
    s1: "credentialHeaders P it [''token'' \<mapsto> JStr (token it)] = Inr hdrs1" and
    s2: "userHeaders P it hdrs1 = Inr hdrs2" and
    s3: "mappedParameters it (q, hdrs2) = Inr (q', hdrs3)" and
    s4: "contentTypeHeader P pathMethods m hdrs3 = Inr (req_headers rq)"
    by (rule buildRequest_steps)
  have "hdrs1 ''token'' = Some (JStr (token it))"
    using credentialHeaders_get [OF s1, of "''token''"] by simp
  then have "hdrs2 ''token'' = Some (JStr (token it))"
    using userHeaders_get [OF s2, of "''token''"] by simp
  then have "hdrs3 ''token'' = Some (JStr (token it))"
    using mappedParameters_token [OF s3] by simp
  then show ?thesis
    using contentTypeHeader_get [OF s4, of "''token''"] by simp
qed

lemma buildRequest_other_header:
  assumes "buildRequest P it = Inr rq"
      and "k \<noteq> ''token''" and "k \<noteq> ''Content-Type''" and "k \<noteq> ''__proto__''"
  shows "req_headers rq k =
           (credentialHeaderEntries P it ++ userHeaderEntries P it ++ mappedHeaderEntries it) k"
proof -
  from assms(1) obtain pathMethods m hdrs1 hdrs2 q q' hdrs3 where
    s1: "credentialHeaders P it [''token'' \<mapsto> JStr (token it)] = Inr hdrs1" and
    s2: "userHeaders P it hdrs1 = Inr hdrs2" and
    s3: "mappedParameters it (q, hdrs2) = Inr (q', hdrs3)" and
    s4: "contentTypeHeader P pathMethods m hdrs3 = Inr (req_headers rq)"
    by (rule buildRequest_steps)
  have h1: "hdrs1 k = credentialHeaderEntries P it k"
    using credentialHeaders_get [OF s1, of k] assms(2)
    by (simp add: map_add_def split: option.splits)
  have h2: "hdrs2 k = (hdrs1 ++ userHeaderEntries P it) k"
    using userHeaders_get [OF s2, of k] assms(2) by simp
  have h3: "hdrs3 k = (hdrs2 ++ mappedHeaderEntries it) k"
    using mappedParameters_headers [OF s3 assms(2) assms(4)] .
  have h4: "req_headers rq k = hdrs3 k"
    using contentTypeHeader_get [OF s4 assms(3)] .
  show ?thesis
    by (simp add: h4 h3 h2 h1 map_add_def split: option.splits)
qed

text \<open>
  C3. Whatever the credential headers, the user headers (rows or JSON) and the mapped
  \<^verbatim>\<open>header_*\<close> fields contain, a \<^verbatim>\<open>token\<close> key included, the headers of every
  request that \<^verbatim>\<open>execute\<close> assembles carry under \<^verbatim>\<open>token\<close> the value of the node's
  token parameter.
\<close>

theorem token_header_protected:
  assumes "buildRequest P it = Inr rq"
  shows "req_headers rq ''token'' = Some (JStr (token it))"
  using assms by (rule buildRequest_token)

theorem token_header_protected_witness:
  "\<exists>rq. buildRequest ascii_runtime token_attack_item = Inr rq \<and>
        req_headers rq ''token'' = Some (JStr ''t1'')"
proof -
  from token_attack_request
  obtain rq where rq: "buildRequest ascii_runtime token_attack_item = Inr rq"
    by (cases "buildRequest ascii_runtime token_attack_item") auto
  have "token token_attack_item = ''t1''"
    by (simp add: token_attack_item_def weather_item_def)
  with token_header_protected [OF rq] rq show ?thesis
    by simp
qed

text \<open>
  C8. Only the key that is exactly \<^verbatim>\<open>token\<close> is removed from the less trusted
  sources. For a key \<open>k\<close> that is a casing variant of \<^verbatim>\<open>token\<close> other than
  \<^verbatim>\<open>token\<close> itself, the final headers hold under \<open>k\<close> what the plain merge of the
  credential entries, the user entries and the mapped \<^verbatim>\<open>header_*\<close> entries holds (a
  later source overriding an earlier one), each entry with the value its source gave
  it; and they hold the node's token under \<^verbatim>\<open>token\<close> beside it.
\<close>

theorem token_strip_is_case_sensitive:
  assumes "buildRequest P it = Inr rq" and "tokenCaseVariant k"
  shows "req_headers rq k =
           (credentialHeaderEntries P it ++ userHeaderEntries P it ++ mappedHeaderEntries it) k \<and>
         req_headers rq ''token'' = Some (JStr (token it))"
  using buildRequest_other_header [OF assms(1) tokenCaseVariant_other [OF assms(2)]]
        buildRequest_token [OF assms(1)]
  by simp

theorem token_strip_is_case_sensitive_witness:
  "tokenCaseVariant ''Token'' \<and>
   (\<exists>rq. buildRequest ascii_runtime token_attack_item = Inr rq \<and>
         req_headers rq ''Token'' = Some (JStr ''c2'') \<and>
         req_headers rq ''token'' = Some (JStr ''t1''))"
proof -
  have v: "tokenCaseVariant ''Token''"
    by code_simp
  from token_attack_request
  obtain rq where rq: "buildRequest ascii_runtime token_attack_item = Inr rq"
    by (cases "buildRequest ascii_runtime token_attack_item") auto
  have src: "(credentialHeaderEntries ascii_runtime token_attack_item ++
              userHeaderEntries ascii_runtime token_attack_item ++
              mappedHeaderEntries token_attack_item) ''Token'' = Some (JStr ''c2'')"
    by code_simp
  have tok: "token token_attack_item = ''t1''"
    by (simp add: token_attack_item_def weather_item_def)
  from token_strip_is_case_sensitive [OF rq v] src tok rq v show ?thesis
    by simp
qed

lemma requestBody_only_BodyParseError:
  "credentialHeaders P it h \<noteq> Inl BodyParseError"
  "userHeaders P it h \<noteq> Inl BodyParseError"
  "userQuery P it \<noteq> Inl BodyParseError"
  by (auto simp: credentialHeaders_def userHeaders_def userQuery_def andThen_Inl
        split: sum.splits option.splits if_splits elim!: withoutToken.elims)

lemma getProp_error: "getProp v k = Inl e \<Longrightarrow> e = TypeError"
  by (cases "(v, k)" rule: getProp.cases) auto

lemma object_keys_error: "object_keys v = Inl e \<Longrightarrow> e = TypeError"
  by (cases v rule: object_keys.cases) auto

lemma withoutToken_error: "withoutToken h = Inl e \<Longrightarrow> e = TypeError"
  by (cases h) auto

lemma assign_prop_error: "assign_prop q k v = Inl e \<Longrightarrow> e = TypeError \<or> e = Unmodelled"
  by (cases q) auto

lemma decodeSelection_error: "decodeSelection P sel = Inl e \<Longrightarrow> e = SyntaxError"
  by (auto simp: decodeSelection_def split: option.splits)

lemma credentialHeaders_error:
  "credentialHeaders P it h = Inl e \<Longrightarrow> e \<noteq> BodyParseError"
  by (auto simp: credentialHeaders_def andThen_Inl split: sum.splits option.splits if_splits
        dest: withoutToken_error)

lemma userHeaders_error:
  "userHeaders P it h = Inl e \<Longrightarrow> e \<noteq> BodyParseError"
  by (auto simp: userHeaders_def andThen_Inl split: option.splits if_splits
        dest: withoutToken_error)

lemma userQuery_error:
  "userQuery P it = Inl e \<Longrightarrow> e \<noteq> BodyParseError"
  by (auto simp: userQuery_def split: option.splits if_splits)

lemma mappedField_error:
  "mappedField kv st = Inl e \<Longrightarrow> e \<noteq> BodyParseError"
  by (cases kv; cases st)
     (auto simp: mappedField_def andThen_Inl Let_def split: if_splits dest: assign_prop_error)

lemma mappedFields_error:
  "mappedFields kvs st = Inl e \<Longrightarrow> e \<noteq> BodyParseError"
  by (induction kvs arbitrary: st) (auto simp: andThen_Inl dest: mappedField_error)

lemma mappedParameters_error:
  "mappedParameters it st = Inl e \<Longrightarrow> e \<noteq> BodyParseError"
  by (auto simp: mappedParameters_def split: option.splits if_splits dest: mappedFields_error)

lemma contentTypeHeader_error:
  "contentTypeHeader P pathMethods m h = Inl e \<Longrightarrow> e = TypeError"
  by (auto simp: contentTypeHeader_def andThen_Inl Let_def split: if_splits option.splits
        dest: getProp_error object_keys_error)

lemma buildRequest_BodyParseError:
  assumes "buildRequest P it = Inl BodyParseError"
  shows "requestBody P it = Inl BodyParseError"
  using assms
  by (auto simp: buildRequest_def andThen_Inl Let_def
        split: if_splits prod.splits option.splits
        dest: getProp_error object_keys_error decodeSelection_error credentialHeaders_error
          userHeaders_error userQuery_error mappedParameters_error contentTypeHeader_error)

lemma requestBody_blank:
  assumes "trim (bodyJson it) = [] \<or> trim (bodyJson it) = ''{}''"
  shows "requestBody P it = Inr None"
  using assms by (auto simp: requestBody_def)

text \<open>
  C9. When a scenario other than the empty one and the sentinels is selected and the Body
  JSON text is empty, consists of white space, or is \<^verbatim>\<open>{}\<close> after trimming, the body
  step returns no body and raises nothing: the item never fails with the body parse
  error, and every request assembled for it has its body left undefined.
\<close>

theorem blank_body_json_sends_no_body:
  assumes "scenario it \<noteq> []"
      and "scenario it \<notin> {''no_use_scenario'', ''no_scenario'', ''error''}"
      and "trim (bodyJson it) = [] \<or> trim (bodyJson it) = ''{}''"
  shows "requestBody P it = Inr None \<and>
         buildRequest P it \<noteq> Inl BodyParseError \<and>
         (\<forall>rq. buildRequest P it = Inr rq \<longrightarrow> req_body rq = None)"
proof -
  have body: "requestBody P it = Inr None"
    using assms(3) by (rule requestBody_blank)
  have "buildRequest P it \<noteq> Inl BodyParseError"
    using buildRequest_BodyParseError [of P it] body by auto
  moreover have "req_body rq = None" if "buildRequest P it = Inr rq" for rq
    using buildRequest_steps [OF that] body by (metis sum.inject(2))
  ultimately show ?thesis
    using body by blast
qed

lemma blank_body_request:
  "\<not> isl (buildRequest ascii_runtime blank_body_item)"
  by (simp add: request_defs blank_body_item_def weather_item_def weather_decoded
        ascii_runtime_fields weather_selection_def trim_def js_space_def, code_simp)

theorem blank_body_json_sends_no_body_witness:
  \<open>scenario blank_body_item \<noteq> [] \<and>
   scenario blank_body_item \<notin> {''no_use_scenario'', ''no_scenario'', ''error''} \<and>
   bodyJson blank_body_item = '' {}  '' \<and>
   trim (bodyJson blank_body_item) = ''{}'' \<and>
   requestBody ascii_runtime blank_body_item = Inr None \<and>
   (\<exists>rq. buildRequest ascii_runtime blank_body_item = Inr rq \<and> req_body rq = None)\<close>
proof -
  have h1: "scenario blank_body_item \<noteq> []"
    by (simp add: blank_body_item_def)
  have h2: "scenario blank_body_item \<notin> {''no_use_scenario'', ''no_scenario'', ''error''}"
    by (simp add: blank_body_item_def)
  have tr: "trim (bodyJson blank_body_item) = ''{}''"
    by (simp add: blank_body_item_def trim_def js_space_def)
  then have h3: "trim (bodyJson blank_body_item) = [] \<or> trim (bodyJson blank_body_item) = ''{}''"
    by simp
  from blank_body_request
  obtain rq where rq: "buildRequest ascii_runtime blank_body_item = Inr rq"
    by (cases "buildRequest ascii_runtime blank_body_item") auto
  from blank_body_json_sends_no_body [OF h1 h2 h3, of ascii_runtime] rq h1 h2 tr
  show ?thesis
    by (auto simp: blank_body_item_def)
qed

lemma bodyFields_never_read:
  "buildRequest P (it\<lparr>bodyFields := bf\<rparr>) = buildRequest P it"
proof -
  have "credentialHeaders P (it\<lparr>bodyFields := bf\<rparr>) = credentialHeaders P it"
    by (rule ext) (simp add: credentialHeaders_def)
  moreover have "userHeaders P (it\<lparr>bodyFields := bf\<rparr>) = userHeaders P it"
    by (rule ext) (simp add: userHeaders_def)
  moreover have "userQuery P (it\<lparr>bodyFields := bf\<rparr>) = userQuery P it"
    by (simp add: userQuery_def)
  moreover have "mappedParameters (it\<lparr>bodyFields := bf\<rparr>) = mappedParameters it"
    by (rule ext) (simp add: mappedParameters_def)
  moreover have "requestBody P (it\<lparr>bodyFields := bf\<rparr>) = requestBody P it"
    by (simp add: requestBody_def)
  ultimately show ?thesis
    by (simp add: buildRequest_def cong: if_cong)
qed

lemma requestBody_no_use_scenario:
  assumes "scenario it = ''no_use_scenario''"
  shows "requestBody P it =
           (if bodyJson it \<noteq> [] \<and> trim (bodyJson it) \<noteq> [] \<and> trim (bodyJson it) \<noteq> ''{}''
            then (case JSON_parse P (bodyJson it) of
                    None \<Rightarrow> Inl BodyParseError
                  | Some b \<Rightarrow> Inr (Some b))
            else Inr None)"
  using assms by (simp add: requestBody_def)

lemma default_body_parsed:
  \<open>parse ''{"a":1}'' = Some (JObj [(''a'', JNum 1)])\<close>
  by code_simp

lemma default_body_request:
  "\<not> isl (buildRequest ascii_runtime (default_body_item\<lparr>bodyFields := bf\<rparr>))"
  by (simp add: request_defs default_body_item_def weather_item_def weather_decoded
        ascii_runtime_fields weather_selection_def trim_def js_space_def default_body_parsed,
      code_simp)

text \<open>
  C1. The code at the failing input: the scenario is \<^verbatim>\<open>no_use_scenario\<close>, the Body JSON
  text is \<^verbatim>\<open>{"a":1}\<close> and the body resource mapper holds \<^verbatim>\<open>body_city\<close>. The body of
  the assembled request is the parsed Body JSON text, and it stays so whatever the body
  resource mapper holds: \<^verbatim>\<open>execute\<close> never reads \<^verbatim>\<open>bodyFields\<close>.
\<close>

theorem no_use_scenario_body_from_body_json:
  \<open>scenario default_body_item = ''no_use_scenario'' \<and>
   bodyJson default_body_item = ''{"a":1}'' \<and>
   bodyFields default_body_item = Some (JObj [(''body_city'', JStr ''Paris'')]) \<and>
   (\<forall>bf. \<exists>rq. buildRequest ascii_runtime (default_body_item\<lparr>bodyFields := bf\<rparr>) = Inr rq \<and>
      req_body rq = Some (JObj [(''a'', JNum 1)]))\<close>
proof -
  have body: "requestBody ascii_runtime (default_body_item\<lparr>bodyFields := bf\<rparr>) =
                Inr (Some (JObj [(''a'', JNum 1)]))" for bf
    by (simp add: requestBody_def default_body_item_def weather_item_def trim_def js_space_def
          ascii_runtime_fields default_body_parsed)
  have "\<exists>rq. buildRequest ascii_runtime (default_body_item\<lparr>bodyFields := bf\<rparr>) = Inr rq \<and>
          req_body rq = Some (JObj [(''a'', JNum 1)])" for bf
  proof -
    from default_body_request [of bf]
    obtain rq where rq: "buildRequest ascii_runtime (default_body_item\<lparr>bodyFields := bf\<rparr>) = Inr rq"
      by (cases "buildRequest ascii_runtime (default_body_item\<lparr>bodyFields := bf\<rparr>)") auto
    from buildRequest_steps [OF rq] body [of bf] have "req_body rq = Some (JObj [(''a'', JNum 1)])"
      by (metis sum.inject(2))
    with rq show ?thesis by blast
  qed
  then show ?thesis
    by (simp add: default_body_item_def)
qed

section \<open>Properties of the scenario loader\<close>

lemma scenarioOptions_first:
  assumes "scenarioOptions P net it response = Inr options"
  shows "\<exists>rest. options = useDefaultOption # rest"
  using assms
  by (auto simp: scenarioOptions_def andThen_Inr Let_def
        split: if_splits option.splits json.splits)

lemma getScenarioList_first:
  assumes "apiSelection it \<noteq> []" and "method it \<noteq> []"
  shows "\<exists>rest. getScenarioList P net it = useDefaultOption # rest"
proof (cases "andThen (scenarioListRequest P it) (\<lambda>rq. andThen (net rq) (scenarioOptions P net it))")
  case (Inl e)
  with assms show ?thesis by (simp add: getScenarioList_def)
next
  case (Inr options)
  then obtain rq response where "scenarioOptions P net it response = Inr options"
    by (auto simp: andThen_Inr)
  from scenarioOptions_first [OF this] Inr assms show ?thesis
    by (auto simp: getScenarioList_def)
qed

lemma scenarioOptions_empty_list:
  assumes "own_get response ''status'' = Some (JNum 1)"
      and "optProp (own_get response ''data'') ''list'' = Some (JArr [])"
  shows "scenarioOptions P net it response = Inr [useDefaultOption, noScenarioOption P (method it)]"
proof -
  from assms(1) have "response \<noteq> JNull" by auto
  then have "getProp (Some response) ''status'' = Inr (Some (JNum 1))"
    using assms(1) by (cases response) auto
  then show ?thesis
    using assms(2) by (simp add: scenarioOptions_def andThen_def positive_def)
qed

text \<open>
  C6. Let an API and a method be selected. Whatever the outcome (a non-empty scenario
  list, an empty one, a failure before, in or after the call), the list that
  \<^verbatim>\<open>getScenarioList\<close> returns starts with the option (Use Default Request Body,
  \<^verbatim>\<open>no_use_scenario\<close>). When the scenario-list call is made and answers with status 1
  and an empty \<^verbatim>\<open>data.list\<close>, the result is exactly that option followed by (No
  scenario templates available for METHOD method, \<^verbatim>\<open>no_scenario\<close>), METHOD being the
  method in upper case.
\<close>

theorem scenario_list_sentinels:
  assumes "apiSelection it \<noteq> []" and "method it \<noteq> []"
  shows "(\<exists>rest. getScenarioList P net it = useDefaultOption # rest) \<and>
         (\<forall>rq response.
            scenarioListRequest P it = Inr rq \<longrightarrow>
            net rq = Inr response \<longrightarrow>
            own_get response ''status'' = Some (JNum 1) \<longrightarrow>
            optProp (own_get response ''data'') ''list'' = Some (JArr []) \<longrightarrow>
            getScenarioList P net it =
              [\<lparr>opt_name = Some (JStr ''Use Default Request Body''),
                opt_value = Some (JStr ''no_use_scenario'')\<rparr>,
               \<lparr>opt_name = Some (JStr (''No scenario templates available for '' @
                                       toUpperCase P (method it) @ '' method'')),
                opt_value = Some (JStr ''no_scenario'')\<rparr>])"
proof (intro conjI allI impI)
  show "\<exists>rest. getScenarioList P net it = useDefaultOption # rest"
    using assms by (rule getScenarioList_first)
next
  fix rq response
  assume rq: "scenarioListRequest P it = Inr rq" and net: "net rq = Inr response"
     and st: "own_get response ''status'' = Some (JNum 1)"
     and li: "optProp (own_get response ''data'') ''list'' = Some (JArr [])"
  show "getScenarioList P net it =
          [\<lparr>opt_name = Some (JStr ''Use Default Request Body''),
            opt_value = Some (JStr ''no_use_scenario'')\<rparr>,
           \<lparr>opt_name = Some (JStr (''No scenario templates available for '' @
                                   toUpperCase P (method it) @ '' method'')),
            opt_value = Some (JStr ''no_scenario'')\<rparr>]"
    using assms rq net scenarioOptions_empty_list [OF st li, of P net it]
    by (simp add: getScenarioList_def andThen_def useDefaultOption_def noScenarioOption_def)
qed

lemma weather_scenario_request:
  "\<not> isl (scenarioListRequest ascii_runtime weather_item)"
  by (simp add: scenarioListRequest_def andThen_def defaultBodyReads_def weather_item_def
        weather_decoded ascii_runtime_fields Let_def)

theorem scenario_list_sentinels_witness:
  "apiSelection weather_item \<noteq> [] \<and> method weather_item = ''POST'' \<and>
   getScenarioList ascii_runtime emptyScenarioNet weather_item =
     [\<lparr>opt_name = Some (JStr ''Use Default Request Body''),
       opt_value = Some (JStr ''no_use_scenario'')\<rparr>,
      \<lparr>opt_name = Some (JStr ''No scenario templates available for POST method''),
       opt_value = Some (JStr ''no_scenario'')\<rparr>]"
proof -
  have h1: "apiSelection weather_item \<noteq> []"
    by (simp add: weather_item_def weather_selection_def)
  have h2: "method weather_item \<noteq> []"
    by (simp add: weather_item_def)
  from weather_scenario_request
  obtain rq where rq: "scenarioListRequest ascii_runtime weather_item = Inr rq"
    by (cases "scenarioListRequest ascii_runtime weather_item") auto
  have net: "emptyScenarioNet rq = Inr (JObj [(''status'', JNum 1), (''data'', JObj [(''list'', JArr [])])])"
    by (simp add: emptyScenarioNet_def)
  have up: "toUpperCase ascii_runtime ''POST'' = ''POST''"
    by (simp add: ascii_runtime_fields ascii_upper_def)
  from scenario_list_sentinels [OF h1 h2, of ascii_runtime emptyScenarioNet] rq net up h1
  show ?thesis
    by (simp add: weather_item_def)
qed

section \<open>Properties of the field derivations\<close>

lemma insertBy_required:
  assumes "truthy (field_required x)"
  shows "insertBy compareRequired x ys = x # ys"
  using assms by (cases ys) (auto simp: compareRequired_def)

lemma insertBy_optional:
  assumes "\<not> truthy (field_required x)"
  shows "insertBy compareRequired x (filter (\<lambda>f. truthy (field_required f)) ys @
                                     filter (\<lambda>f. \<not> truthy (field_required f)) zs) =
         filter (\<lambda>f. truthy (field_required f)) ys @
         x # filter (\<lambda>f. \<not> truthy (field_required f)) zs"
  using assms
proof (induction ys)
  case Nil
  have "insertBy compareRequired x ws = x # ws"
    if "\<forall>w \<in> set ws. \<not> truthy (field_required w)" for ws
    using that Nil by (cases ws) (auto simp: compareRequired_def)
  then show ?case by simp
next
  case (Cons y ys)
  then show ?case by (auto simp: compareRequired_def)
qed

lemma js_sort_requiredFirst: "js_sort compareRequired fs = requiredFirst fs"
proof (induction fs)
  case Nil
  show ?case by (simp add: js_sort_def requiredFirst_def)
next
  case (Cons f fs)
  have "js_sort compareRequired (f # fs) = insertBy compareRequired f (requiredFirst fs)"
    using Cons.IH by (simp add: js_sort_def)
  also have "\<dots> = requiredFirst (f # fs)"
  proof (cases "truthy (field_required f)")
    case True
    then show ?thesis by (simp add: insertBy_required requiredFirst_def)
  next
    case False
    then show ?thesis
      using insertBy_optional [OF False, of fs fs] by (simp add: requiredFirst_def)
  qed
  finally show ?case .
qed

text \<open>
  C7. Both derivations return the fields they pushed in the order \<open>requiredFirst\<close>:
  all fields with a truthy \<^verbatim>\<open>required\<close> before all the others, and the fields of equal
  requiredness in the order in which the parameters or properties were listed. This
  holds for every list of parameters and of properties, hence for every permutation of
  one.
\<close>

theorem required_fields_sorted_first:
  "(scenario it = ''no_use_scenario'' \<and> method it \<noteq> [] \<and> apiSelection it \<noteq> [] \<and>
      pushedParameterFields P it = Inr params \<longrightarrow>
    getParametersFields P it =
      filter (\<lambda>f. truthy (field_required f)) params @
      filter (\<lambda>f. \<not> truthy (field_required f)) params) \<and>
   (scenario it = ''no_use_scenario'' \<and>
      toUpperCase P (method it) \<in> {''POST'', ''PUT'', ''PATCH''} \<and> apiSelection it \<noteq> [] \<and>
      pushedBodyFields P it = Inr props \<longrightarrow>
    getBodyFields P it =
      filter (\<lambda>f. truthy (field_required f)) props @
      filter (\<lambda>f. \<not> truthy (field_required f)) props)"
  by (auto simp: getParametersFields_def getBodyFields_def js_sort_requiredFirst requiredFirst_def)

lemma fields_text:
  \<open>fromBase64 ascii_runtime fields_selection =
     ''{"interface":{"paths":{"/w":{"post":{"parameters":[{"name":"a","in":"q'' @
     ''uery"},{"name":"b","in":"header","required":true},{"name":"c","in":"qu'' @
     ''ery","required":true}],"requestBody":{"content":{"application/json":{"'' @
     ''schema":{"properties":{"x":{},"y":{},"z":{}},"required":["y","z"]}}}}}'' @
     ''}}}}''\<close>
  by (simp add: ascii_runtime_fields fields_selection_def sextet_def, code_simp)

lemma fields_parsed:
  \<open>parse
     (''{"interface":{"paths":{"/w":{"post":{"parameters":[{"name":"a","in":"q'' @
     ''uery"},{"name":"b","in":"header","required":true},{"name":"c","in":"qu'' @
     ''ery","required":true}],"requestBody":{"content":{"application/json":{"'' @
     ''schema":{"properties":{"x":{},"y":{},"z":{}},"required":["y","z"]}}}}}'' @
     ''}}}}'') =
   Some (JObj [(''interface'', JObj [(''paths'', JObj [(''/w'', JObj [(''post'', JObj
     [(''parameters'', JArr
         [JObj [(''name'', JStr ''a''), (''in'', JStr ''query'')],
          JObj [(''name'', JStr ''b''), (''in'', JStr ''header''), (''required'', JBool True)],
          JObj [(''name'', JStr ''c''), (''in'', JStr ''query''), (''required'', JBool True)]]),
      (''requestBody'', JObj [(''content'', JObj [(''application/json'', JObj [(''schema'', JObj
         [(''properties'', JObj [(''x'', JObj []), (''y'', JObj []), (''z'', JObj [])]),
          (''required'', JArr [JStr ''y'', JStr ''z''])])])])])])])])])])\<close>
  by code_simp

lemma fields_methodData:
  "selectedMethodData ascii_runtime fields_item =
   Inr (Some (JObj
     [(''parameters'', JArr
         [JObj [(''name'', JStr ''a''), (''in'', JStr ''query'')],
          JObj [(''name'', JStr ''b''), (''in'', JStr ''header''), (''required'', JBool True)],
          JObj [(''name'', JStr ''c''), (''in'', JStr ''query''), (''required'', JBool True)]]),
      (''requestBody'', JObj [(''content'', JObj [(''application/json'', JObj [(''schema'', JObj
         [(''properties'', JObj [(''x'', JObj []), (''y'', JObj []), (''z'', JObj [])]),
          (''required'', JArr [JStr ''y'', JStr ''z''])])])])])]))"
  by (simp add: selectedMethodData_def decodeSelection_def fields_item_def weather_item_def
        fields_text andThen_def)
     (simp add: ascii_runtime_fields fields_parsed ascii_lower_def, code_simp?)

lemma fields_pushed:
  "pushedParameterFields ascii_runtime fields_item =
     Inr [mkField ''query_a'' ''a [Q]'' False, mkField ''header_b'' ''b * [H]'' True,
          mkField ''query_c'' ''c * [Q]'' True]"
  "pushedBodyFields ascii_runtime fields_item =
     Inr [mkField ''body_x'' ''x'' False, mkField ''body_y'' ''y *'' True,
          mkField ''body_z'' ''z *'' True]"
  by (simp_all add: pushedParameterFields_def pushedBodyFields_def fields_methodData andThen_def
        parameterField_def bodyField_def Let_def mkField_def mapSchemaTypeToFieldType_def)

theorem required_fields_sorted_first_witness:
  "scenario fields_item = ''no_use_scenario'' \<and> method fields_item = ''POST'' \<and>
   apiSelection fields_item \<noteq> [] \<and>
   toUpperCase ascii_runtime (method fields_item) \<in> {''POST'', ''PUT'', ''PATCH''} \<and>
   getParametersFields ascii_runtime fields_item =
     [mkField ''header_b'' ''b * [H]'' True, mkField ''query_c'' ''c * [Q]'' True,
      mkField ''query_a'' ''a [Q]'' False] \<and>
   getBodyFields ascii_runtime fields_item =
     [mkField ''body_y'' ''y *'' True, mkField ''body_z'' ''z *'' True,
      mkField ''body_x'' ''x'' False]"
proof -
  have h: "scenario fields_item = ''no_use_scenario''" "method fields_item = ''POST''"
          "apiSelection fields_item \<noteq> []"
    by (simp_all add: fields_item_def weather_item_def fields_selection_def)
  have up': "toUpperCase ascii_runtime ''POST'' = ''POST''"
    by (simp add: ascii_runtime_fields ascii_upper_def)
  then have up: "toUpperCase ascii_runtime (method fields_item) \<in> {''POST'', ''PUT'', ''PATCH''}"
    by (simp add: h)
  from required_fields_sorted_first
         [of fields_item ascii_runtime
             "[mkField ''query_a'' ''a [Q]'' False, mkField ''header_b'' ''b * [H]'' True,
               mkField ''query_c'' ''c * [Q]'' True]"
             "[mkField ''body_x'' ''x'' False, mkField ''body_y'' ''y *'' True,
               mkField ''body_z'' ''z *'' True]"]
       h up up' fields_pushed
  show ?thesis
    by (simp add: mkField_def)
qed

section \<open>Properties of the MCP node\<close>

lemma mcpItem_other_transport:
  assumes "connectionType it \<noteq> ''sse''" and "connectionType it \<noteq> ''http''"
  shows "mcpItem P env now i it = andThen (mcpRequest P now it) (\<lambda>request. Inr [])"
  using assms by (simp add: mcpItem_def)

text \<open>
  C10, as amended. For an item whose connection type is neither \<^verbatim>\<open>sse\<close> nor
  \<^verbatim>\<open>http\<close> and whose JSON-RPC request can be built (the parameters text parses, for
  \<^verbatim>\<open>tools/call\<close> and \<^verbatim>\<open>prompts/get\<close>), \<^verbatim>\<open>execute\<close> appends nothing and raises
  nothing: the loop goes on with the next item and the same \<^verbatim>\<open>returnData\<close>, so the
  output has no entry for that item.
\<close>

theorem unknown_transport_item_is_dropped:
  assumes "connectionType it \<noteq> ''sse''" and "connectionType it \<noteq> ''http''"
      and "mcpRequest P (clock i) it = Inr request"
  shows "mcpItem P env (clock i) i it = Inr [] \<and>
         mcpExecuteFrom P env clock continueOnFail i (it # items) returnData =
           mcpExecuteFrom P env clock continueOnFail (Suc i) items returnData"
  using assms by (simp add: mcpItem_other_transport andThen_def)

theorem unknown_transport_item_is_dropped_witness:
  "connectionType unknown_transport_item \<noteq> ''sse'' \<and>
   connectionType unknown_transport_item \<noteq> ''http'' \<and>
   mcpRequest ascii_runtime 1700000000000 unknown_transport_item =
     Inr (JObj [(''jsonrpc'', JStr ''2.0''), (''method'', JStr ''tools/list''),
                (''id'', JNum 1700000000000)]) \<and>
   mcpExecute ascii_runtime quiet_env fixed_clock False [unknown_transport_item] = Inr []"
proof -
  have h1: "connectionType unknown_transport_item \<noteq> ''sse''"
    and h2: "connectionType unknown_transport_item \<noteq> ''http''"
    by (simp_all add: unknown_transport_item_def)
  have h3: "mcpRequest ascii_runtime (fixed_clock 0) unknown_transport_item =
              Inr (JObj [(''jsonrpc'', JStr ''2.0''), (''method'', JStr ''tools/list''),
                         (''id'', JNum 1700000000000)])"
    by (simp add: mcpRequest_def unknown_transport_item_def fixed_clock_def)
  from unknown_transport_item_is_dropped
         [where it = unknown_transport_item and P = ascii_runtime
            and clock = fixed_clock and i = 0 and env = quiet_env
            and continueOnFail = False and items = "[]" and returnData = "[]",
          OF h1 h2]
       h1 h2 h3
  show ?thesis
    by (simp add: mcpExecute_def fixed_clock_def)
qed

lemma malformed_parameters: "parse ''{'' = None"
  by code_simp

text \<open>
  The claim as it was stated fails where the request cannot be built: an item with
  another connection type, the operation \<^verbatim>\<open>tools/call\<close> and a parameters text that is
  no JSON aborts the batch with the SyntaxError, or leaves an error record when
  \<^verbatim>\<open>continueOnFail()\<close> holds.
\<close>

theorem unknown_transport_item_counterexample:
  "connectionType malformed_call_item \<noteq> ''sse'' \<and>
   connectionType malformed_call_item \<noteq> ''http'' \<and>
   mcpExecute ascii_runtime quiet_env fixed_clock False [malformed_call_item]
     = Inl SyntaxError \<and>
   mcpExecute ascii_runtime quiet_env fixed_clock True [malformed_call_item]
     = Inr [ItemError SyntaxError 0]"
  by (simp add: mcpExecute_def mcpItem_def mcpRequest_def andThen_def malformed_call_item_def
        unknown_transport_item_def ascii_runtime_fields malformed_parameters fixed_clock_def)

section \<open>Properties of \<^verbatim>\<open>split\<close>\<close>

text \<open>
  Splitting a text that grows: the pieces found so far stay, and the last, unfinished
  piece is split again together with what arrived.
\<close>

lemma split_go_nonempty: "split_go sep k acc u \<noteq> []"
  by (induction sep k acc u rule: split_go.induct) auto

lemma split_go_skip:
  "k \<le> length u \<Longrightarrow> split_go sep k acc u = split_go sep 0 acc (drop k u)"
proof (induction k arbitrary: u)
  case 0
  then show ?case by simp
next
  case (Suc k)
  then obtain c cs where "u = c # cs" by (cases u) auto
  with Suc show ?case by simp
qed

lemma startsWith_length:
  assumes "startsWith u sep"
  shows "length sep \<le> length u"
proof -
  from assms have "length (take (length sep) u) = length sep"
    by (simp only: startsWith_def)
  then show ?thesis by simp
qed

lemma split_go_acc:
  "split_go sep 0 acc u =
     (rev acc @ hd (split_go sep 0 [] u)) # tl (split_go sep 0 [] u)"
proof (induction u arbitrary: acc)
  case Nil
  show ?case by simp
next
  case (Cons c cs)
  show ?case
  proof (cases "startsWith (c # cs) sep")
    case True
    then show ?thesis by simp
  next
    case False
    then show ?thesis
      using Cons [of "c # acc"] Cons [of "[c]"] by simp
  qed
qed

lemma pieces_Nil: "split_go sep 0 [] [] = [[]]"
  by simp

lemma pieces_match:
  assumes "sep \<noteq> []" and "startsWith (c # cs) sep"
  shows "split_go sep 0 [] (c # cs) = [] # split_go sep 0 [] (drop (length sep) (c # cs))"
proof -
  from assms(2) have "length sep \<le> length (c # cs)" by (rule startsWith_length)
  with assms(1) have le: "length sep - 1 \<le> length cs" by simp
  have a: "split_go sep 0 [] (c # cs) = [] # split_go sep (length sep - 1) [] cs"
    using assms(2) by simp
  have b: "split_go sep (length sep - 1) [] cs = split_go sep 0 [] (drop (length sep - 1) cs)"
    by (rule split_go_skip [OF le])
  have c: "drop (length sep) (c # cs) = drop (length sep - 1) cs"
    using assms(1) by (cases sep) simp_all
  show ?thesis by (simp only: a b c)
qed

lemma pieces_nomatch:
  assumes "\<not> startsWith (c # cs) sep"
  shows "split_go sep 0 [] (c # cs) =
           (c # hd (split_go sep 0 [] cs)) # tl (split_go sep 0 [] cs)"
  using assms split_go_acc [of sep "[c]" cs] by simp

lemma pieces_short:
  "length u < length sep \<Longrightarrow> split_go sep 0 [] u = [u]"
proof (induction u)
  case Nil
  show ?case by simp
next
  case (Cons c cs)
  then have "\<not> startsWith (c # cs) sep"
    using startsWith_length [of "c # cs" sep] by auto
  with Cons show ?case by (simp add: pieces_nomatch del: split_go.simps)
qed

lemma pieces_single:
  assumes "sep \<noteq> []"
  shows "split_go sep 0 [] u = [p] \<Longrightarrow> p = u"
proof (induction u arbitrary: p)
  case Nil
  then show ?case by simp
next
  case (Cons c cs)
  show ?case
  proof (cases "startsWith (c # cs) sep")
    case True
    from pieces_match [OF assms True] Cons.prems
    have "split_go sep 0 [] (drop (length sep) (c # cs)) = []" by simp
    then show ?thesis by (simp add: split_go_nonempty)
  next
    case False
    from pieces_nomatch [OF False] Cons.prems
    have hd: "p = c # hd (split_go sep 0 [] cs)" and tl: "tl (split_go sep 0 [] cs) = []"
      by simp_all
    from tl split_go_nonempty [of sep 0 "[]" cs]
    have "split_go sep 0 [] cs = [hd (split_go sep 0 [] cs)]"
      by (cases "split_go sep 0 [] cs") auto
    from Cons.IH [OF this] hd show ?thesis by simp
  qed
qed

lemma pieces_append:
  assumes "sep \<noteq> []"
  shows "split_go sep 0 [] (t @ x) =
           butlast (split_go sep 0 [] t) @ split_go sep 0 [] (last (split_go sep 0 [] t) @ x)"
proof (induction t rule: length_induct)
  case (1 t)
  show ?case
  proof (cases "length t < length sep")
    case True
    then show ?thesis by (simp add: pieces_short)
  next
    case False
    with assms obtain c cs where t: "t = c # cs" by (cases t) auto
    have sw: "startsWith (t @ x) sep = startsWith t sep"
      using False by (simp add: startsWith_def)
    show ?thesis
    proof (cases "startsWith t sep")
      case True
      let ?r = "drop (length sep) t"
      have len: "length ?r < length t" using assms t by simp
      have St: "split_go sep 0 [] t = [] # split_go sep 0 [] ?r"
        using pieces_match [OF assms] True t by (simp del: split_go.simps)
      have dr: "drop (length sep) (t @ x) = ?r @ x" using False by simp
      have "startsWith (c # (cs @ x)) sep" using True sw t by simp
      from pieces_match [OF assms this]
      have "split_go sep 0 [] (t @ x) = [] # split_go sep 0 [] (drop (length sep) (t @ x))"
        using t by (simp del: split_go.simps)
      then have Stx: "split_go sep 0 [] (t @ x) = [] # split_go sep 0 [] (?r @ x)"
        by (simp only: dr)
      from 1 len have IH: "split_go sep 0 [] (?r @ x) =
          butlast (split_go sep 0 [] ?r) @ split_go sep 0 [] (last (split_go sep 0 [] ?r) @ x)"
        by blast
      have "split_go sep 0 [] (t @ x) =
              [] # (butlast (split_go sep 0 [] ?r) @
                    split_go sep 0 [] (last (split_go sep 0 [] ?r) @ x))"
        by (simp only: Stx IH)
      also have "\<dots> = butlast (split_go sep 0 [] t) @
                          split_go sep 0 [] (last (split_go sep 0 [] t) @ x)"
        by (simp add: St split_go_nonempty del: split_go.simps)
      finally show ?thesis .
    next
      case nomatch: False
      let ?S = "split_go sep 0 [] cs"
      have St: "split_go sep 0 [] t = (c # hd ?S) # tl ?S"
        using pieces_nomatch nomatch t by (simp del: split_go.simps)
      have "\<not> startsWith (c # (cs @ x)) sep" using nomatch sw t by simp
      from pieces_nomatch [OF this]
      have Stx: "split_go sep 0 [] (t @ x) =
                   (c # hd (split_go sep 0 [] (cs @ x))) # tl (split_go sep 0 [] (cs @ x))"
        using t by (simp del: split_go.simps)
      have "length cs < length t" using t by simp
      with 1 have IH: "split_go sep 0 [] (cs @ x) =
          butlast ?S @ split_go sep 0 [] (last ?S @ x)"
        by blast
      show ?thesis
      proof (cases "tl ?S = []")
        case True
        with split_go_nonempty [of sep 0 "[]" cs] have "?S = [hd ?S]"
          by (cases ?S) auto
        from pieces_single [OF assms this] have "hd ?S = cs" .
        with St True t show ?thesis by (simp del: split_go.simps)
      next
        case False
        then obtain h r where S: "?S = h # r" and r: "r \<noteq> []"
          by (cases ?S) auto
        have "split_go sep 0 [] (t @ x) =
                (c # h) # (butlast r @ split_go sep 0 [] (last r @ x))"
          using r by (simp add: Stx IH S del: split_go.simps)
        also have "\<dots> = butlast (split_go sep 0 [] t) @
                            split_go sep 0 [] (last (split_go sep 0 [] t) @ x)"
          using r by (simp add: St S del: split_go.simps)
        finally show ?thesis .
      qed
    qed
  qed
qed

lemma split_append:
  assumes "sep \<noteq> []"
  shows "split (t @ x) sep = butlast (split t sep) @ split (last (split t sep) @ x) sep"
proof -
  have "split u sep = split_go sep 0 [] u" for u
    using assms by (simp add: split_def)
  with pieces_append [OF assms, of t x] show ?thesis
    by (simp only:)
qed

lemma split_nonempty: "sep \<noteq> [] \<Longrightarrow> split t sep \<noteq> []"
  by (simp add: split_def split_go_nonempty)

section \<open>Properties of the SSE session\<close>

lemma finish_settled:
  assumes "sse_inv timeout s"
  shows "sse_inv timeout (finish s)" and "promise (finish s) \<noteq> None"
  using assms by (auto simp: sse_inv_def finish_def settle_def Let_def split: option.splits)

lemma push_inv:
  assumes "sse_inv timeout s"
  shows "sse_inv timeout (s\<lparr>sseData := xs\<rparr>)"
  using assms by (simp add: sse_inv_def)

lemma dataLines_inv:
  assumes "sse_inv timeout s"
  shows "sse_inv timeout (fst (dataLines P lines s)) \<and>
         (snd (dataLines P lines s) \<longrightarrow> promise (fst (dataLines P lines s)) \<noteq> None)"
  using assms
proof (induction lines arbitrary: s)
  case Nil
  then show ?case by simp
next
  case (Cons line lines)
  show ?case
  proof (cases "startsWith line ''data: ''")
    case False
    with Cons.IH [OF Cons.prems] show ?thesis by simp
  next
    case True
    show ?thesis
    proof (cases "trim (drop 6 line) = ''[DONE]''")
      case marker: True
      with True finish_settled [OF Cons.prems] show ?thesis by simp
    next
      case nomarker: False
      show ?thesis
      proof (cases "JSON_parse P (trim (drop 6 line))")
        case None
        with True nomarker Cons.IH [OF Cons.prems] show ?thesis by simp
      next
        case (Some jsonData)
        let ?s1 = "s\<lparr>sseData := sseData s @ [jsonData]\<rparr>"
        have inv1: "sse_inv timeout ?s1" using Cons.prems by (rule push_inv)
        show ?thesis
        proof (cases "terminalMessage jsonData")
          case terminal: True
          with True nomarker Some finish_settled [OF inv1] show ?thesis by simp
        next
          case ongoing: False
          with True nomarker Some Cons.IH [OF inv1] show ?thesis by simp
        qed
      qed
    qed
  qed
qed

lemma dataEvents_inv:
  assumes "sse_inv timeout s"
  shows "sse_inv timeout (fst (dataEvents P events s)) \<and>
         (snd (dataEvents P events s) \<longrightarrow> promise (fst (dataEvents P events s)) \<noteq> None)"
  using assms
proof (induction events arbitrary: s)
  case Nil
  then show ?case by simp
next
  case (Cons event events)
  show ?case
  proof (cases "trim event = []")
    case True
    with Cons.IH [OF Cons.prems] show ?thesis by simp
  next
    case False
    obtain s1 returned where dl: "dataLines P (split event [CHR 0x0A]) s = (s1, returned)"
      by (cases "dataLines P (split event [CHR 0x0A]) s")
    from dataLines_inv [OF Cons.prems, of P "split event [CHR 0x0A]"] dl
    have inv1: "sse_inv timeout s1" and ret: "returned \<longrightarrow> promise s1 \<noteq> None"
      by simp_all
    show ?thesis
    proof (cases returned)
      case True
      with False dl inv1 ret show ?thesis by simp
    next
      case notret: False
      with False dl Cons.IH [OF inv1] show ?thesis by simp
    qed
  qed
qed

lemma onData_inv:
  assumes "sse_inv timeout s"
  shows "sse_inv timeout (onData P chunk s)"
proof -
  have "sse_inv timeout (s\<lparr>buffer := b\<rparr>)" for b
    using assms by (simp add: sse_inv_def)
  then show ?thesis
    using dataEvents_inv by (simp add: onData_def Let_def)
qed

lemma endLines_fields:
  "isResolved (endLines P lines s) = isResolved s \<and> promise (endLines P lines s) = promise s \<and>
   timer (endLines P lines s) = timer s \<and> responded (endLines P lines s) = responded s"
  by (induction lines arbitrary: s) (auto split: option.splits)

lemma onEnd_inv:
  assumes "sse_inv timeout s"
  shows "sse_inv timeout (onEnd P s)" and "promise (onEnd P s) \<noteq> None"
  using assms
  by (auto simp: sse_inv_def onEnd_def settle_def Let_def endLines_fields split: option.splits)

lemma onError_inv:
  assumes "sse_inv timeout s"
  shows "sse_inv timeout (onError prefix msg s)" and "promise (onError prefix msg s) \<noteq> None"
  using assms
  by (auto simp: sse_inv_def onError_def settle_def Let_def split: option.splits)

lemma onTimeout_inv:
  assumes "sse_inv timeout s"
  shows "sse_inv timeout (onTimeout s)" and "promise (onTimeout s) \<noteq> None"
  using assms
  by (auto simp: sse_inv_def onTimeout_def settle_def Let_def split: option.splits)

lemma step_inv:
  assumes "sse_inv timeout s"
  shows "sse_inv timeout (step P timeout s ev)"
proof (cases ev)
  case Response
  with assms show ?thesis by (auto simp: sse_inv_def)
next
  case (Data chunk)
  with assms onData_inv [OF assms] show ?thesis by (simp add: sse_inv_def)
next
  case End
  with assms onEnd_inv(1) [OF assms] show ?thesis by (simp add: sse_inv_def)
next
  case (ResponseError msg)
  with assms onError_inv(1) [OF assms] show ?thesis by (simp add: sse_inv_def)
next
  case (RequestError msg)
  with onError_inv(1) [OF assms] show ?thesis by simp
next
  case Timeout
  with assms onTimeout_inv(1) [OF assms] show ?thesis by simp
qed

lemma foldl_step_inv:
  assumes "sse_inv timeout s"
  shows "sse_inv timeout (foldl (step P timeout) s events)"
  using assms by (induction events arbitrary: s) (simp_all add: step_inv)

lemma run_inv: "sse_inv timeout (run P timeout (Response # events))"
proof -
  have "sse_inv timeout (step P timeout sse_initial Response)"
    by (simp add: sse_inv_def sse_initial_def)
  then show ?thesis
    by (simp add: run_def foldl_step_inv)
qed

lemma dataLines_terminal:
  assumes "list_ex (terminalLine P) lines"
  shows "snd (dataLines P lines s)"
  using assms
  by (induction lines arbitrary: s)
     (auto simp: terminalLine_def Let_def split: option.splits)

lemma dataEvents_terminal:
  assumes "list_ex (terminalEvent P) events"
  shows "snd (dataEvents P events s)"
  using assms
proof (induction events arbitrary: s)
  case Nil
  then show ?case by simp
next
  case (Cons event events)
  show ?case
  proof (cases "terminalEvent P event")
    case True
    then have "snd (dataLines P (split event [CHR 0x0A]) s)" and "trim event \<noteq> []"
      by (simp_all add: terminalEvent_def dataLines_terminal)
    then show ?thesis by (auto split: prod.splits)
  next
    case False
    with Cons.prems have "list_ex (terminalEvent P) events" by simp
    from Cons.IH [OF this] show ?thesis by (auto split: prod.splits bool.splits)
  qed
qed

lemma onData_terminal:
  assumes "sse_inv timeout s" and "terminalChunk P (buffer s) chunk"
  shows "promise (onData P chunk s) \<noteq> None"
proof -
  let ?events = "split (buffer s @ chunk) [CHR 0x0A, CHR 0x0A]"
  let ?s1 = "s\<lparr>buffer := popped ?events\<rparr>"
  have inv1: "sse_inv timeout ?s1" using assms(1) by (simp add: sse_inv_def)
  have "snd (dataEvents P (butlast ?events) ?s1)"
    using assms(2) by (simp add: terminalChunk_def dataEvents_terminal)
  with dataEvents_inv [OF inv1, of P "butlast ?events"] show ?thesis
    by (simp add: onData_def Let_def)
qed


lemma settle_keeps: "promise s = Some out \<Longrightarrow> promise (settle out' s) = Some out"
  by (simp add: settle_def)

lemma finish_keeps:
  "promise s = Some out \<Longrightarrow> promise (finish s) = Some out"
  "buffer (finish s) = buffer s"
  by (simp_all add: finish_def settle_def Let_def split: option.splits)

lemma dataLines_keeps:
  "buffer (fst (dataLines P lines s)) = buffer s \<and>
   (promise s = Some out \<longrightarrow> promise (fst (dataLines P lines s)) = Some out)"
  by (induction lines arbitrary: s) (simp_all add: Let_def finish_keeps split: option.splits)

lemma dataEvents_keeps:
  "buffer (fst (dataEvents P events s)) = buffer s \<and>
   (promise s = Some out \<longrightarrow> promise (fst (dataEvents P events s)) = Some out)"
proof (induction events arbitrary: s)
  case Nil
  show ?case by simp
next
  case (Cons event events)
  obtain s1 returned where dl: "dataLines P (split event [CHR 0x0A]) s = (s1, returned)"
    by (cases "dataLines P (split event [CHR 0x0A]) s")
  from dataLines_keeps [of P "split event [CHR 0x0A]" s out] dl
  have s1: "buffer s1 = buffer s" "promise s = Some out \<longrightarrow> promise s1 = Some out"
    by simp_all
  show ?case
    using dl s1 Cons [of s] Cons [of s1] by (cases returned) simp_all
qed

lemma onData_keeps:
  "promise s = Some out \<Longrightarrow> promise (onData P chunk s) = Some out"
  using dataEvents_keeps [of P _ "s\<lparr>buffer := b\<rparr>" out for b]
  by (simp add: onData_def Let_def)

lemma onData_buffer:
  "buffer (onData P chunk s) = popped (split (buffer s @ chunk) [CHR 0x0A, CHR 0x0A])"
  using dataEvents_keeps [of P _ "s\<lparr>buffer := b\<rparr>" for b]
  by (simp add: onData_def Let_def)

lemma endLines_buffer: "buffer (endLines P lines s) = buffer s"
  by (induction lines arbitrary: s) (auto split: option.splits)

lemma step_keeps:
  assumes "promise s = Some out"
  shows "promise (step P timeout s ev) = Some out"
  using assms
  by (cases ev)
     (simp_all add: onData_keeps onEnd_def onError_def onTimeout_def settle_def Let_def
        endLines_fields)

lemma step_buffer:
  assumes "\<forall>chunk. ev \<noteq> Data chunk"
  shows "buffer (step P timeout s ev) = buffer s"
  using assms
  by (cases ev)
     (simp_all add: onEnd_def onError_def onTimeout_def settle_def Let_def endLines_buffer
        split: option.splits)

lemma received_single: "received (ev # events) = received [ev] @ received events"
  by (cases ev) simp_all

lemma received_not_data: "\<forall>chunk. ev \<noteq> Data chunk \<Longrightarrow> received [ev] = []"
  by (cases ev) simp_all

lemma popped_last: "xs \<noteq> [] \<Longrightarrow> popped xs = last xs"
  by (cases xs) simp_all

lemma step_stream:
  assumes inv: "sse_inv timeout s" and str: "stream_inv P s got"
  shows "stream_inv P (step P timeout s ev) (got @ received [ev])"
proof (cases "\<exists>chunk. ev = Data chunk")
  case False
  then have nd: "\<forall>chunk. ev \<noteq> Data chunk" by blast
  have "promise (step P timeout s ev) \<noteq> None" if "promise s \<noteq> None"
    using that step_keeps [of s _ P timeout ev] by auto
  with str show ?thesis
    by (simp add: stream_inv_def received_not_data [OF nd] step_buffer [OF nd])
next
  case True
  then obtain chunk where ev: "ev = Data chunk" by blast
  let ?sep = "[CHR 0x0A, CHR 0x0A]"
  let ?A = "split got ?sep"
  let ?B = "split (last ?A @ chunk) ?sep"
  have sep: "?sep \<noteq> []" by simp
  have B: "?B \<noteq> []" by (rule split_nonempty [OF sep])
  have whole: "split (got @ chunk) ?sep = butlast ?A @ ?B"
    by (rule split_append [OF sep])
  from inv have resp: "responded s" by (simp add: sse_inv_def)
  from str have buf: "buffer s = last ?A" by (simp add: stream_inv_def)
  have "buffer (onData P chunk s) = last (split (got @ chunk) ?sep)"
    using B by (simp add: onData_buffer buf popped_last whole)
  moreover have "promise (onData P chunk s) \<noteq> None" if "terminalStream P (got @ chunk)"
  proof -
    from that have "list_ex (terminalEvent P) (butlast ?A @ butlast ?B)"
      using B by (simp add: terminalStream_def whole butlast_append)
    then consider "list_ex (terminalEvent P) (butlast ?A)" | "list_ex (terminalEvent P) (butlast ?B)"
      by auto
    then show ?thesis
    proof cases
      case 1
      with str have "promise s \<noteq> None" by (simp add: stream_inv_def terminalStream_def)
      then show ?thesis using onData_keeps [of s _ P chunk] by auto
    next
      case 2
      then have "terminalChunk P (buffer s) chunk" by (simp add: terminalChunk_def buf)
      with inv show ?thesis by (rule onData_terminal)
    qed
  qed
  ultimately show ?thesis
    using resp by (simp add: stream_inv_def ev)
qed

lemma foldl_step_stream:
  assumes "sse_inv timeout s" and "stream_inv P s got"
  shows "stream_inv P (foldl (step P timeout) s events) (got @ received events)"
  using assms
proof (induction events arbitrary: s got)
  case Nil
  then show ?case by simp
next
  case (Cons ev events)
  have "stream_inv P (foldl (step P timeout) (step P timeout s ev) events)
          ((got @ received [ev]) @ received events)"
    using Cons.prems by (intro Cons.IH step_inv step_stream)
  then show ?case
    using received_single [of ev events] by simp
qed

lemma run_stream:
  "stream_inv P (run P timeout (Response # events)) (received events)"
proof -
  let ?s1 = "step P timeout sse_initial Response"
  have inv: "sse_inv timeout ?s1"
    by (simp add: sse_inv_def sse_initial_def)
  have "stream_inv P ?s1 []"
    by (simp add: stream_inv_def sse_initial_def terminalStream_def split_def)
  from foldl_step_stream [OF inv this, of events] show ?thesis
    by (simp add: run_def)
qed


text \<open>
  C2, as amended. Let \<open>s\<close> be any state of the session after the response callback
  has run, whatever events came since, and whatever the configured timeout. The promise
  is settled exactly when \<^verbatim>\<open>isResolved\<close> holds, and as long as it is not settled the
  timer set in the response callback is pending with the configured delay; when that
  timer fires the promise is settled, so from the arrival of the response the session
  cannot stay open past the timeout, even if no terminal marker ever comes. The end of
  the stream settles it. And as soon as the text received so far, in whatever chunks it
  came, holds a complete event (one followed by two line feeds) with a line that starts
  with \<^verbatim>\<open>data: \<close> and whose trimmed payload is \<^verbatim>\<open>[DONE]\<close> or a JSON value with a
  \<^verbatim>\<open>result\<close> or an \<^verbatim>\<open>error\<close> key, the promise is settled: the handler of the chunk
  that completes the event settles it.
\<close>

theorem sse_accumulation_terminates:
  assumes "s = run P timeout (Response # events)"
  shows "(isResolved s \<longleftrightarrow> promise s \<noteq> None) \<and>
         (promise s = None \<longrightarrow> timer s = Some timeout) \<and>
         promise (step P timeout s Timeout) \<noteq> None \<and>
         promise (step P timeout s End) \<noteq> None \<and>
         (terminalStream P (received events) \<longrightarrow> promise s \<noteq> None)"
proof -
  have inv: "sse_inv timeout s"
    unfolding assms by (rule run_inv)
  then have resp: "responded s" and iff: "isResolved s \<longleftrightarrow> promise s \<noteq> None"
    and pending: "\<not> isResolved s \<longrightarrow> timer s = Some timeout"
    by (simp_all add: sse_inv_def)
  have timeout: "promise (step P timeout s Timeout) \<noteq> None"
  proof (cases "timer s")
    case None
    with pending iff show ?thesis by auto
  next
    case (Some t)
    with onTimeout_inv(2) [OF inv] show ?thesis by simp
  qed
  have ended: "promise (step P timeout s End) \<noteq> None"
    using resp onEnd_inv(2) [OF inv] by simp
  have marker: "promise s \<noteq> None" if "terminalStream P (received events)"
    using that run_stream [of P timeout events] by (simp add: stream_inv_def assms)
  show ?thesis
    using iff pending timeout ended marker by auto
qed

lemma stalled_state:
  "run ascii_runtime 60000 stalled_stream =
     \<lparr> sseData = [JObj [(''progress'', JNum 1)]], buffer = [], isResolved = False,
       responded = True, timer = Some 60000, destroyed = False, promise = None \<rparr>"
  by code_simp

lemma stalled_continuations:
  "step ascii_runtime 60000 (run ascii_runtime 60000 stalled_stream) (Data result_chunk) =
     \<lparr> sseData = [JObj [(''progress'', JNum 1)], JObj [(''result'', JObj [(''ok'', JBool True)])]],
       buffer = [], isResolved = True, responded = True, timer = None, destroyed = True,
       promise = Some (Resolved [JObj [(''progress'', JNum 1)],
                                 JObj [(''result'', JObj [(''ok'', JBool True)])]]) \<rparr>"
  "promise (step ascii_runtime 60000 (run ascii_runtime 60000 stalled_stream) Timeout) =
     Some (Resolved [JObj [(''progress'', JNum 1)]])"
  "promise (step ascii_runtime 60000 (run ascii_runtime 60000 stalled_stream) End) =
     Some (Resolved [JObj [(''progress'', JNum 1)]])"
  "terminalChunk ascii_runtime (buffer (run ascii_runtime 60000 stalled_stream)) result_chunk"
  by code_simp+

lemma split_stream_run:
  "terminalStream ascii_runtime (received [Data first_half, Data second_half])"
  "promise (run ascii_runtime 60000 [Response, Data first_half, Data second_half]) =
     Some (Resolved [JObj [(''progress'', JNum 1)],
                     JObj [(''result'', JObj [(''ok'', JBool True)])]])"
  "promise (run ascii_runtime 60000 [Response, Data first_half]) = None"
  by code_simp+

theorem sse_accumulation_terminates_witness:
  "promise (run ascii_runtime 60000 (Response # [Data progress_chunk])) = None \<and>
   timer (run ascii_runtime 60000 (Response # [Data progress_chunk])) = Some 60000 \<and>
   promise (step ascii_runtime 60000 (run ascii_runtime 60000 (Response # [Data progress_chunk]))
              Timeout) = Some (Resolved [JObj [(''progress'', JNum 1)]]) \<and>
   promise (step ascii_runtime 60000 (run ascii_runtime 60000 (Response # [Data progress_chunk]))
              End) = Some (Resolved [JObj [(''progress'', JNum 1)]]) \<and>
   terminalStream ascii_runtime (received [Data first_half, Data second_half]) \<and>
   promise (run ascii_runtime 60000 (Response # [Data first_half, Data second_half])) =
     Some (Resolved [JObj [(''progress'', JNum 1)],
                     JObj [(''result'', JObj [(''ok'', JBool True)])]])"
proof -
  let ?s = "run ascii_runtime 60000 (Response # [Data progress_chunk])"
  let ?t = "run ascii_runtime 60000 (Response # [Data first_half, Data second_half])"
  have st: "?s = run ascii_runtime 60000 stalled_stream"
    by (simp only: stalled_stream_def)
  from sse_accumulation_terminates [of ?s ascii_runtime 60000 "[Data progress_chunk]"]
  have stalled: "promise ?s = None \<longrightarrow> timer ?s = Some 60000"
    by blast
  from sse_accumulation_terminates
         [of ?t ascii_runtime 60000 "[Data first_half, Data second_half]"]
       split_stream_run(1)
  have settled: "promise ?t \<noteq> None"
    by blast
  show ?thesis
  proof (intro conjI)
    show none: "promise ?s = None"
      by (simp only: st stalled_state sse_state.select_convs)
    from stalled none show "timer ?s = Some 60000"
      by blast
    show "promise (step ascii_runtime 60000 ?s Timeout) = Some (Resolved [JObj [(''progress'', JNum 1)]])"
      by (simp only: st stalled_continuations(2))
    show "promise (step ascii_runtime 60000 ?s End) = Some (Resolved [JObj [(''progress'', JNum 1)]])"
      by (simp only: st stalled_continuations(3))
    show "terminalStream ascii_runtime (received [Data first_half, Data second_half])"
      by (rule split_stream_run(1))
    from settled show "promise ?t =
        Some (Resolved [JObj [(''progress'', JNum 1)],
                        JObj [(''result'', JObj [(''ok'', JBool True)])]])"
      by (simp only: split_stream_run(2))
  qed
qed

text \<open>
  The claim as it was stated fails in two ways. The timer is set in the response
  callback: before the response has arrived no timer is pending, and the timeout
  settles nothing. And an end marker is seen only in a line that starts with
  \<^verbatim>\<open>data: \<close>, the space included, inside an event that two line feeds close: after
  the response, the chunk \<^verbatim>\<open>data:[DONE]\<close> followed by two line feeds, and the chunk
  \<^verbatim>\<open>data: [DONE]\<close> followed by carriage return, line feed, carriage return, line feed,
  each leave the promise unsettled.
\<close>

theorem sse_accumulation_terminates_counterexample:
  "timer (run ascii_runtime 60000 []) = None \<and>
   promise (step ascii_runtime 60000 (run ascii_runtime 60000 []) Timeout) = None \<and>
   promise (run ascii_runtime 60000 [Response, Data compact_done_chunk]) = None \<and>
   promise (run ascii_runtime 60000 [Response, Data crlf_done_chunk]) = None"
  by code_simp

section \<open>Properties of the encoded selection\<close>






end
